theory Spec2Isabelle
  imports Complex_Main "HOL-Library.Multiset" "HOL-Library.Log_Nat"
begin

section \<open>Conventions of the embedding\<close>

text \<open>
  The Python sources under \<^verbatim>\<open>src/polymarket\<close> are embedded function by function.
  A Python \<^verbatim>\<open>float\<close> is read as the real number it denotes, and sums, products
  and the quotients of prices are taken exactly.  The quotients of the skew rule are
  different: they are compared with a threshold and decide between discrete results,
  so they are rounded to binary64 as the hardware rounds them, and may be infinite.
  An exception is a value
  \<open>Inl e\<close> of a sum type, a normal return is \<open>Inr v\<close>.  \<open>NotModelled\<close> is not a
  Python exception: it marks an input on which this theory does not say what the code
  does.
\<close>

datatype py_error =
    ZeroDivisionError | KeyError | ValueError | TypeError | AttributeError
  | NotModelled

text \<open>True division \<^verbatim>\<open>a / b\<close> on floats raises when the divisor is zero.\<close>

definition py_div :: "real \<Rightarrow> real \<Rightarrow> py_error + real" where
  "py_div a b = (if b = 0 then Inl ZeroDivisionError else Inr (a / b))"

section \<open>models.py: enumerations\<close>

datatype Side = BUY | SELL

datatype Outcome = YES | NO

section \<open>breakeven\_calculator.py\<close>

record BreakevenCalculator =
  breakeven_target :: real
  safety_margin :: real
  effective_target :: real

text \<open>\<^verbatim>\<open>BreakevenCalculator.__init__\<close>; the defaults are 0.99 and 0.005.\<close>

definition BreakevenCalculator_init :: "real \<Rightarrow> real \<Rightarrow> BreakevenCalculator" where
  "BreakevenCalculator_init target margin =
     \<lparr>breakeven_target = target, safety_margin = margin,
      effective_target = target - margin\<rparr>"

text \<open>
  The value of the local variable \<^verbatim>\<open>max_price\<close> of \<^verbatim>\<open>_calc_max_yes_bid\<close> and
  \<^verbatim>\<open>_calc_max_no_bid\<close> before it is clamped (lines 98 to 101 and 137 to 140; the two
  methods differ in the names of their arguments only).
\<close>

definition unclamped_max_price ::
  "BreakevenCalculator \<Rightarrow> real \<Rightarrow> real \<Rightarrow> real \<Rightarrow> real \<Rightarrow> py_error + real" where
  "unclamped_max_price self total_spend total_qty partner_avg new_qty =
     (let max_avg = effective_target self - partner_avg;
          new_total_qty = total_qty + new_qty;
          max_total_spend = max_avg * new_total_qty;
          max_new_spend = max_total_spend - total_spend
      in py_div max_new_spend new_qty)"

definition calc_max_yes_bid ::
  "BreakevenCalculator \<Rightarrow> real \<Rightarrow> real \<Rightarrow> real \<Rightarrow> real \<Rightarrow> py_error + real" where
  "calc_max_yes_bid self total_spend_yes total_qty_yes avg_cost_no new_qty =
     (let max_avg_yes = effective_target self - avg_cost_no
      in if max_avg_yes \<le> 0 then Inr 0
         else (case unclamped_max_price self total_spend_yes total_qty_yes avg_cost_no new_qty of
                 Inl e \<Rightarrow> Inl e
               | Inr max_price \<Rightarrow> Inr (max (1 / 100) (min (99 / 100) max_price))))"

definition calc_max_no_bid ::
  "BreakevenCalculator \<Rightarrow> real \<Rightarrow> real \<Rightarrow> real \<Rightarrow> real \<Rightarrow> py_error + real" where
  "calc_max_no_bid self total_spend_no total_qty_no avg_cost_yes new_qty =
     (let max_avg_no = effective_target self - avg_cost_yes
      in if max_avg_no \<le> 0 then Inr 0
         else (case unclamped_max_price self total_spend_no total_qty_no avg_cost_yes new_qty of
                 Inl e \<Rightarrow> Inl e
               | Inr max_price \<Rightarrow> Inr (max (1 / 100) (min (99 / 100) max_price))))"

definition calculate_max_bid ::
  "BreakevenCalculator \<Rightarrow> Outcome \<Rightarrow> real \<Rightarrow> real \<Rightarrow> real \<Rightarrow> real \<Rightarrow> real \<Rightarrow> real \<Rightarrow> real
     \<Rightarrow> py_error + real" where
  "calculate_max_bid self outcome total_spend_yes total_qty_yes avg_cost_no
       total_spend_no total_qty_no avg_cost_yes new_qty =
     (if new_qty \<le> 0 then Inr 0
      else if outcome = YES
        then calc_max_yes_bid self total_spend_yes total_qty_yes avg_cost_no new_qty
        else calc_max_no_bid self total_spend_no total_qty_no avg_cost_yes new_qty)"

definition calculate_projected_box_cost ::
  "BreakevenCalculator \<Rightarrow> Outcome \<Rightarrow> real \<Rightarrow> real \<Rightarrow> real \<Rightarrow> real \<Rightarrow> real \<Rightarrow> real \<Rightarrow> real" where
  "calculate_projected_box_cost self outcome bid_price new_qty total_spend_yes total_qty_yes
       total_spend_no total_qty_no =
     (if outcome = YES then
        (let new_spend_yes = total_spend_yes + bid_price * new_qty;
             new_qty_yes = total_qty_yes + new_qty;
             new_avg_yes = (if new_qty_yes > 0 then new_spend_yes / new_qty_yes else 0);
             new_avg_no = (if total_qty_no > 0 then total_spend_no / total_qty_no else 0)
         in new_avg_yes + new_avg_no)
      else
        (let new_spend_no = total_spend_no + bid_price * new_qty;
             new_qty_no = total_qty_no + new_qty;
             new_avg_no = (if new_qty_no > 0 then new_spend_no / new_qty_no else 0);
             new_avg_yes = (if total_qty_yes > 0 then total_spend_yes / total_qty_yes else 0)
         in new_avg_yes + new_avg_no))"

text \<open>\<^verbatim>\<open>Position.avg_cost\<close> as a function of the two stored fields.\<close>

definition avg_cost_of :: "real \<Rightarrow> real \<Rightarrow> real" where
  "avg_cost_of total_cost quantity = (if quantity > 0 then total_cost / quantity else 0)"

section \<open>Rounding\<close>

text \<open>
  \<^verbatim>\<open>round(x)\<close> rounds to the nearest integer and a tie to the even neighbour;
  \<^verbatim>\<open>round(x, n)\<close> does the same at the \<open>n\<close>-th decimal place.
\<close>

definition py_round :: "real \<Rightarrow> int" where
  "py_round x =
     (let f = \<lfloor>x\<rfloor>; d = x - of_int f
      in if d < 1 / 2 then f
         else if d > 1 / 2 then f + 1
         else if even f then f else f + 1)"

definition py_round_ndigits :: "real \<Rightarrow> nat \<Rightarrow> real" where
  "py_round_ndigits x n = of_int (py_round (x * 10 ^ n)) / 10 ^ n"

section \<open>Binary64 quotients\<close>

text \<open>
  A float value: a real number, or one of the two infinities.  \<^verbatim>\<open>a < b\<close> on such
  values is \<open>float_less\<close>.
\<close>

datatype pyfloat = Finite real | PosInf | NegInf

fun float_less :: "pyfloat \<Rightarrow> pyfloat \<Rightarrow> bool" where
  "float_less (Finite a) (Finite b) = (a < b)"
| "float_less (Finite a) PosInf = True"
| "float_less NegInf (Finite b) = True"
| "float_less NegInf PosInf = True"
| "float_less a b = False"

text \<open>
  Rounding to the nearest binary64 value, ties to even.  For \<open>x > 0\<close>, \<open>binade x\<close> is
  the exponent \<open>e\<close> with \<open>2\<^sup>e \<le> x < 2\<^sup>e\<^sup>+\<^sup>1\<close>, and \<open>ulp x\<close> the spacing of the
  binary64 values around \<open>x\<close>: 53 significant bits, and the fixed spacing \<open>2\<^sup>-\<^sup>1\<^sup>0\<^sup>7\<^sup>4\<close>
  below \<open>2\<^sup>-\<^sup>1\<^sup>0\<^sup>2\<^sup>2\<close>.  A result of \<open>2\<^sup>1\<^sup>0\<^sup>2\<^sup>4\<close> or more is infinite.
\<close>

definition binade :: "real \<Rightarrow> int" where
  "binade x = (if 1 \<le> x then bitlen \<lfloor>x\<rfloor> - 1 else - bitlen (\<lceil>1 / x\<rceil> - 1))"

definition ulp :: "real \<Rightarrow> real" where
  "ulp x = 2 powi (max (binade x) (- 1022) - 52)"

definition round_pos :: "real \<Rightarrow> real" where
  "round_pos x = of_int (py_round (x / ulp x)) * ulp x"

definition to_binary64 :: "real \<Rightarrow> pyfloat" where
  "to_binary64 x =
     (if x = 0 then Finite 0
      else if x > 0 then (let r = round_pos x in if r \<ge> 2 ^ 1024 then PosInf else Finite r)
      else (let r = round_pos (- x) in if r \<ge> 2 ^ 1024 then NegInf else Finite (- r)))"

text \<open>True division of two floats whose result is kept as a float.\<close>

definition float_div :: "real \<Rightarrow> real \<Rightarrow> py_error + pyfloat" where
  "float_div a b = (if b = 0 then Inl ZeroDivisionError else Inr (to_binary64 (a / b)))"

section \<open>models.py: positions\<close>

record Position =
  token_id :: string
  outcome :: Outcome
  quantity :: real
  total_cost :: real

definition avg_cost :: "Position \<Rightarrow> real" where
  "avg_cost self = (if quantity self > 0 then total_cost self / quantity self else 0)"

definition add_fill :: "Position \<Rightarrow> real \<Rightarrow> real \<Rightarrow> Position" where
  "add_fill self qty price =
     self\<lparr>total_cost := total_cost self + qty * price, quantity := quantity self + qty\<rparr>"

record MarketPosition =
  condition_id :: string
  yes_position :: Position
  no_position :: Position

definition skew_ratio :: "MarketPosition \<Rightarrow> pyfloat" where
  "skew_ratio self =
     (if quantity (no_position self) = 0
      then (if quantity (yes_position self) > 0 then PosInf else Finite 1)
      else to_binary64 (quantity (yes_position self) / quantity (no_position self)))"

definition inverse_skew_ratio :: "MarketPosition \<Rightarrow> pyfloat" where
  "inverse_skew_ratio self =
     (if quantity (yes_position self) = 0
      then (if quantity (no_position self) > 0 then PosInf else Finite 1)
      else to_binary64 (quantity (no_position self) / quantity (yes_position self)))"

definition box_cost :: "MarketPosition \<Rightarrow> real" where
  "box_cost self = avg_cost (yes_position self) + avg_cost (no_position self)"

definition total_usdc_spent :: "MarketPosition \<Rightarrow> real" where
  "total_usdc_spent self = total_cost (yes_position self) + total_cost (no_position self)"

section \<open>models.py: fills and quotes\<close>

text \<open>
  A naive \<^verbatim>\<open>datetime\<close> (the sources only build timestamps with
  \<^verbatim>\<open>datetime.utcnow()\<close> and \<^verbatim>\<open>datetime.fromisoformat\<close>).
\<close>

record datetime =
  year :: nat
  month :: nat
  day :: nat
  hour :: nat
  minute :: nat
  second :: nat
  microsecond :: nat

record Quote =
  q_token_id :: string
  q_outcome :: Outcome
  q_side :: Side
  q_price :: real
  q_size :: real
  q_order_id :: "string option"

record Fill =
  fill_order_id :: string
  fill_token_id :: string
  fill_outcome :: Outcome
  fill_side :: Side
  fill_price :: real
  fill_size :: real
  fill_timestamp :: datetime
  fill_maker :: bool

definition notional :: "Fill \<Rightarrow> real" where
  "notional self = fill_price self * fill_size self"

section \<open>inventory\_tracker.py\<close>

text \<open>
  The tracker's dictionary maps a condition id to a \<^verbatim>\<open>MarketPosition\<close> object.  Every
  path that stores an object in it (\<^verbatim>\<open>get_or_create_position\<close>, and
  \<^verbatim>\<open>MarketPosition.from_dict\<close> behind \<^verbatim>\<open>load_from_positions\<close>) allocates the object
  and its two \<^verbatim>\<open>Position\<close>s afresh, so no two keys share an object and the in-place
  updates of the source are updates of the map at one key.
\<close>

record InventoryTracker =
  positions :: "string \<rightharpoonup> MarketPosition"
  skew_threshold :: real

definition InventoryTracker_init :: "real \<Rightarrow> InventoryTracker" where
  "InventoryTracker_init threshold = \<lparr>positions = Map.empty, skew_threshold = threshold\<rparr>"

definition get_or_create_position ::
  "InventoryTracker \<Rightarrow> string \<Rightarrow> string \<Rightarrow> string \<Rightarrow> InventoryTracker \<times> MarketPosition" where
  "get_or_create_position self cid yes_token_id no_token_id =
     (case positions self cid of
        Some p \<Rightarrow> (self, p)
      | None \<Rightarrow>
          (let p = \<lparr>condition_id = cid,
                    yes_position = \<lparr>token_id = yes_token_id, outcome = YES,
                                    quantity = 0, total_cost = 0\<rparr>,
                    no_position = \<lparr>token_id = no_token_id, outcome = NO,
                                   quantity = 0, total_cost = 0\<rparr>\<rparr>
           in (self\<lparr>positions := (positions self)(cid \<mapsto> p)\<rparr>, p)))"

text \<open>
  \<^verbatim>\<open>record_fill\<close>: the two early returns only log a warning; the logging calls after
  the update read the position and change nothing.
\<close>

definition record_fill :: "InventoryTracker \<Rightarrow> string \<Rightarrow> Fill \<Rightarrow> InventoryTracker" where
  "record_fill self cid fill =
     (case positions self cid of
        None \<Rightarrow> self
      | Some position \<Rightarrow>
          if fill_side fill \<noteq> BUY then self
          else if fill_outcome fill = YES
            then self\<lparr>positions := (positions self)(cid \<mapsto>
                   position\<lparr>yes_position :=
                     add_fill (yes_position position) (fill_size fill) (fill_price fill)\<rparr>)\<rparr>
            else self\<lparr>positions := (positions self)(cid \<mapsto>
                   position\<lparr>no_position :=
                     add_fill (no_position position) (fill_size fill) (fill_price fill)\<rparr>)\<rparr>)"

definition get_skew_ratio :: "InventoryTracker \<Rightarrow> string \<Rightarrow> pyfloat" where
  "get_skew_ratio self cid =
     (case positions self cid of Some position \<Rightarrow> skew_ratio position | None \<Rightarrow> Finite 1)"

definition is_yes_heavy :: "InventoryTracker \<Rightarrow> string \<Rightarrow> bool" where
  "is_yes_heavy self cid = float_less (Finite (skew_threshold self)) (get_skew_ratio self cid)"

definition is_no_heavy :: "InventoryTracker \<Rightarrow> string \<Rightarrow> bool" where
  "is_no_heavy self cid =
     (case positions self cid of
        None \<Rightarrow> False
      | Some position \<Rightarrow>
          float_less (Finite (skew_threshold self)) (inverse_skew_ratio position))"

definition get_adjustment_direction :: "InventoryTracker \<Rightarrow> string \<Rightarrow> int \<times> int" where
  "get_adjustment_direction self cid =
     (if is_yes_heavy self cid then (- 1, 1)
      else if is_no_heavy self cid then (1, - 1)
      else (0, 0))"

section \<open>models.py: order books\<close>

record OrderBookLevel =
  level_price :: real
  level_size :: real

text \<open>The constructor with its \<^verbatim>\<open>__post_init__\<close>.\<close>

definition OrderBookLevel_init :: "real \<Rightarrow> real \<Rightarrow> OrderBookLevel" where
  "OrderBookLevel_init price sz =
     \<lparr>level_price = py_round_ndigits price 4, level_size = py_round_ndigits sz 4\<rparr>"

record OrderBook =
  ob_token_id :: string
  bids :: "OrderBookLevel list"
  asks :: "OrderBookLevel list"
  ob_timestamp :: datetime

definition best_bid :: "OrderBook \<Rightarrow> real option" where
  "best_bid self = (case bids self of [] \<Rightarrow> None | l # _ \<Rightarrow> Some (level_price l))"

definition best_ask :: "OrderBook \<Rightarrow> real option" where
  "best_ask self = (case asks self of [] \<Rightarrow> None | l # _ \<Rightarrow> Some (level_price l))"

section \<open>quote\_generator.py\<close>

text \<open>The fields of \<^verbatim>\<open>TradingConfig\<close> that the quote generator reads.\<close>

record TradingConfig =
  cfg_min_price :: real
  cfg_max_price :: real
  cfg_tick_size :: real
  cfg_base_quote_size :: real
  cfg_skew_threshold :: real

record QuoteGenerator =
  config :: TradingConfig
  tick_size :: real
  base_size :: real
  qg_skew_threshold :: real

definition QuoteGenerator_init :: "TradingConfig \<Rightarrow> QuoteGenerator" where
  "QuoteGenerator_init cfg =
     \<lparr>config = cfg, tick_size = cfg_tick_size cfg, base_size = cfg_base_quote_size cfg,
      qg_skew_threshold = cfg_skew_threshold cfg\<rparr>"

text \<open>
  The expression \<^verbatim>\<open>round(x / self.tick_size) * self.tick_size\<close>, which
  \<^verbatim>\<open>_generate_single_quote\<close> evaluates at lines 112 and 120.
\<close>

definition round_to_tick :: "QuoteGenerator \<Rightarrow> real \<Rightarrow> py_error + real" where
  "round_to_tick self x =
     (case py_div x (tick_size self) of
        Inl e \<Rightarrow> Inl e
      | Inr r \<Rightarrow> Inr (of_int (py_round r) * tick_size self))"

definition generate_single_quote ::
  "QuoteGenerator \<Rightarrow> string \<Rightarrow> Outcome \<Rightarrow> OrderBook option \<Rightarrow> int \<Rightarrow> real
     \<Rightarrow> py_error + Quote option" where
  "generate_single_quote self tok oc orderbook tick_adjustment max_price =
     (case orderbook of
        None \<Rightarrow> Inr None
      | Some book \<Rightarrow>
         (case best_bid book of
            None \<Rightarrow> Inr None
          | Some bb \<Rightarrow>
             (let base_price = bb - tick_size self;
                  quote_price =
                    (if tick_adjustment > 0 then bb
                     else if tick_adjustment < 0
                       then base_price + of_int tick_adjustment * tick_size self
                       else base_price)
              in case round_to_tick self quote_price of
                   Inl e \<Rightarrow> Inl e
                 | Inr snapped \<Rightarrow>
                    (case (if snapped > max_price then round_to_tick self max_price
                           else Inr snapped) of
                       Inl e \<Rightarrow> Inl e
                     | Inr final \<Rightarrow>
                        if final < cfg_min_price (config self)
                           \<or> final > cfg_max_price (config self) then Inr None
                        else if final \<le> 0 then Inr None
                        else Inr (Some \<lparr>q_token_id = tok, q_outcome = oc, q_side = BUY,
                               q_price = py_round_ndigits final 4, q_size = base_size self,
                               q_order_id = None\<rparr>)))))"

definition qg_get_skew_ratio :: "QuoteGenerator \<Rightarrow> real \<Rightarrow> real \<Rightarrow> pyfloat" where
  "qg_get_skew_ratio self yes_qty no_qty =
     (if no_qty = 0 then (if yes_qty > 0 then PosInf else Finite 1)
      else to_binary64 (yes_qty / no_qty))"

definition get_skew_adjustments :: "QuoteGenerator \<Rightarrow> pyfloat \<Rightarrow> py_error + (int \<times> int)" where
  "get_skew_adjustments self ratio =
     (if float_less (Finite (qg_skew_threshold self)) ratio then Inr (- 1, 1)
      else (case float_div 1 (qg_skew_threshold self) of
              Inl e \<Rightarrow> Inl e
            | Inr bound \<Rightarrow> if float_less ratio bound then Inr (1, - 1) else Inr (0, 0)))"

definition generate_quotes ::
  "QuoteGenerator \<Rightarrow> string \<Rightarrow> string \<Rightarrow> string \<Rightarrow> OrderBook option \<Rightarrow> OrderBook option
     \<Rightarrow> real \<Rightarrow> real \<Rightarrow> real \<Rightarrow> real \<Rightarrow> py_error + Quote list" where
  "generate_quotes self cid yes_token_id no_token_id yes_orderbook no_orderbook
       yes_qty no_qty max_yes_bid max_no_bid =
     (case get_skew_adjustments self (qg_get_skew_ratio self yes_qty no_qty) of
        Inl e \<Rightarrow> Inl e
      | Inr (yes_adj, no_adj) \<Rightarrow>
         (case generate_single_quote self yes_token_id YES yes_orderbook yes_adj max_yes_bid of
            Inl e \<Rightarrow> Inl e
          | Inr yes_quote \<Rightarrow>
             (case generate_single_quote self no_token_id NO no_orderbook no_adj max_no_bid of
                Inl e \<Rightarrow> Inl e
              | Inr no_quote \<Rightarrow>
                 Inr ((case yes_quote of None \<Rightarrow> [] | Some q \<Rightarrow> [q])
                      @ (case no_quote of None \<Rightarrow> [] | Some q \<Rightarrow> [q])))))"

section \<open>websocket\_manager.py: the order-book maintainer\<close>

text \<open>
  The search loop of \<^verbatim>\<open>_update_level\<close>.  \<open>Some\<close> is the list after the loop has hit a
  level within the tolerance and returned; \<open>None\<close> means the loop ran to its end.
\<close>

fun update_existing :: "OrderBookLevel list \<Rightarrow> real \<Rightarrow> real \<Rightarrow> OrderBookLevel list option" where
  "update_existing [] price sz = None"
| "update_existing (level # rest) price sz =
     (if \<bar>level_price level - price\<bar> < 1 / 10000
      then Some (if sz \<le> 0 then rest else level\<lparr>level_size := sz\<rparr> # rest)
      else map_option ((#) level) (update_existing rest price sz))"

text \<open>
  \<^verbatim>\<open>list.sort\<close> is stable, also with \<^verbatim>\<open>reverse=True\<close>, and so is \<open>sort_key\<close>;
  the descending order is the ascending order of the negated price.
\<close>

definition update_level ::
  "OrderBookLevel list \<Rightarrow> real \<Rightarrow> real \<Rightarrow> bool \<Rightarrow> OrderBookLevel list" where
  "update_level levels price sz ascending =
     (case update_existing levels price sz of
        Some updated \<Rightarrow> updated
      | None \<Rightarrow>
          if sz > 0 then
            (let new_level = OrderBookLevel_init price sz;
                 appended = levels @ [new_level]
             in if ascending then sort_key level_price appended
                else sort_key (\<lambda>x. - level_price x) appended)
          else levels)"

text \<open>
  One entry of the \<^verbatim>\<open>"changes"\<close> array after decoding: the side string already
  upper-cased, price and size already converted by \<^verbatim>\<open>float\<close>.
\<close>

record Change =
  change_side :: string
  change_price :: real
  change_size :: real

definition apply_change :: "OrderBook \<Rightarrow> Change \<Rightarrow> OrderBook" where
  "apply_change book c =
     (if change_side c = ''BUY''
        then book\<lparr>bids := update_level (bids book) (change_price c) (change_size c) False\<rparr>
      else if change_side c = ''SELL''
        then book\<lparr>asks := update_level (asks book) (change_price c) (change_size c) True\<rparr>
      else book)"

text \<open>
  \<^verbatim>\<open>_handle_price_change\<close> on a decoded message; an absent or empty token id is the
  empty string, \<open>now\<close> is the value of \<^verbatim>\<open>datetime.utcnow()\<close>.
\<close>

definition handle_price_change ::
  "(string \<rightharpoonup> OrderBook) \<Rightarrow> string \<Rightarrow> Change list \<Rightarrow> datetime \<Rightarrow> (string \<rightharpoonup> OrderBook)" where
  "handle_price_change orderbooks tok changes now =
     (if tok = [] then orderbooks
      else
        (let book = (case orderbooks tok of
                       Some b \<Rightarrow> b
                     | None \<Rightarrow> \<lparr>ob_token_id = tok, bids = [], asks = [], ob_timestamp = now\<rparr>);
             book' = fold (\<lambda>c b. apply_change b c) changes book
         in orderbooks(tok \<mapsto> book'\<lparr>ob_timestamp := now\<rparr>)))"

section \<open>datetime: ISO 8601 text\<close>

text \<open>
  \<^verbatim>\<open>datetime.isoformat\<close> and \<^verbatim>\<open>datetime.fromisoformat\<close> belong to the Python
  library, not to the repository; they are written out here for naive datetimes.
  \<^verbatim>\<open>isoformat\<close> prints \<^verbatim>\<open>YYYY-MM-DDTHH:MM:SS\<close> and appends \<^verbatim>\<open>.ffffff\<close> when the
  microsecond is not zero.  \<^verbatim>\<open>fromisoformat\<close> is modelled on the texts of these two
  shapes (any separator character in place of \<^verbatim>\<open>T\<close>): it reads the fields and raises
  \<^verbatim>\<open>ValueError\<close> when one is out of the range the constructor accepts.  The library
  also reads other ISO 8601 forms; on every text of another shape the model answers
  \<open>NotModelled\<close>.
\<close>

definition digit_char :: "nat \<Rightarrow> char" where
  "digit_char d = ''0123456789'' ! d"

text \<open>The value of an ASCII digit, by its code.\<close>

definition digit_val :: "char \<Rightarrow> nat option" where
  "digit_val c =
     (let k = (of_char c :: nat) in if 48 \<le> k \<and> k \<le> 57 then Some (k - 48) else None)"

fun zero_pad :: "nat \<Rightarrow> nat \<Rightarrow> string" where
  "zero_pad 0 n = []"
| "zero_pad (Suc w) n = zero_pad w (n div 10) @ [digit_char (n mod 10)]"

fun parse_digits :: "nat \<Rightarrow> string \<Rightarrow> nat option" where
  "parse_digits acc [] = Some acc"
| "parse_digits acc (c # cs) =
     (case digit_val c of None \<Rightarrow> None | Some d \<Rightarrow> parse_digits (acc * 10 + d) cs)"

definition is_leap :: "nat \<Rightarrow> bool" where
  "is_leap y = (y mod 4 = 0 \<and> (y mod 100 \<noteq> 0 \<or> y mod 400 = 0))"

definition days_in_month :: "nat \<Rightarrow> nat \<Rightarrow> nat" where
  "days_in_month y m =
     (if m = 2 then (if is_leap y then 29 else 28)
      else if m = 4 \<or> m = 6 \<or> m = 9 \<or> m = 11 then 30 else 31)"

text \<open>The ranges that the \<^verbatim>\<open>datetime\<close> constructor enforces.\<close>

definition valid_datetime :: "datetime \<Rightarrow> bool" where
  "valid_datetime d =
     (1 \<le> year d \<and> year d \<le> 9999 \<and> 1 \<le> month d \<and> month d \<le> 12
      \<and> 1 \<le> day d \<and> day d \<le> days_in_month (year d) (month d)
      \<and> hour d < 24 \<and> minute d < 60 \<and> second d < 60 \<and> microsecond d < 1000000)"

definition isoformat :: "datetime \<Rightarrow> string" where
  "isoformat d =
     zero_pad 4 (year d) @ ''-'' @ zero_pad 2 (month d) @ ''-'' @ zero_pad 2 (day d) @ ''T''
     @ zero_pad 2 (hour d) @ '':'' @ zero_pad 2 (minute d) @ '':'' @ zero_pad 2 (second d)
     @ (if microsecond d = 0 then [] else ''.'' @ zero_pad 6 (microsecond d))"

definition fromisoformat :: "string \<Rightarrow> py_error + datetime" where
  "fromisoformat s =
     (if length s \<noteq> 19 \<and> length s \<noteq> 26 then Inl NotModelled
      else if s ! 4 \<noteq> CHR ''-'' \<or> s ! 7 \<noteq> CHR ''-'' \<or> s ! 13 \<noteq> CHR '':''
              \<or> s ! 16 \<noteq> CHR '':'' \<or> (length s = 26 \<and> s ! 19 \<noteq> CHR ''.'')
        then Inl NotModelled
      else
        (case (parse_digits 0 (take 4 s), parse_digits 0 (take 2 (drop 5 s)),
               parse_digits 0 (take 2 (drop 8 s)), parse_digits 0 (take 2 (drop 11 s)),
               parse_digits 0 (take 2 (drop 14 s)), parse_digits 0 (take 2 (drop 17 s)),
               (if length s = 26 then parse_digits 0 (drop 20 s) else Some 0)) of
           (Some y, Some mo, Some dy, Some h, Some mi, Some se, Some us) \<Rightarrow>
             (let d = \<lparr>year = y, month = mo, day = dy, hour = h, minute = mi, second = se,
                       microsecond = us\<rparr>
              in if valid_datetime d then Inr d else Inl ValueError)
         | _ \<Rightarrow> Inl NotModelled))"

section \<open>models.py: serialization\<close>

text \<open>
  The values that \<^verbatim>\<open>to_dict\<close> builds and \<^verbatim>\<open>from_dict\<close> reads: strings, floats,
  booleans, lists, and dictionaries as lists of items in insertion order.
\<close>

datatype pyval =
    PStr string
  | PFloat real
  | PBool bool
  | PList "pyval list"
  | PDict "(string \<times> pyval) list"

definition bind_err :: "py_error + 'a \<Rightarrow> ('a \<Rightarrow> py_error + 'b) \<Rightarrow> py_error + 'b" where
  "bind_err m f = (case m of Inl e \<Rightarrow> Inl e | Inr v \<Rightarrow> f v)"

text \<open>A comprehension whose body may raise: it stops at the first exception.\<close>

fun map_err :: "('a \<Rightarrow> py_error + 'b) \<Rightarrow> 'a list \<Rightarrow> py_error + 'b list" where
  "map_err f [] = Inr []"
| "map_err f (x # xs) = bind_err (f x) (\<lambda>y. bind_err (map_err f xs) (\<lambda>ys. Inr (y # ys)))"

text \<open>\<^verbatim>\<open>data[key]\<close> and \<^verbatim>\<open>data.get(key, default)\<close>.\<close>

definition getitem :: "pyval \<Rightarrow> string \<Rightarrow> py_error + pyval" where
  "getitem data key =
     (case data of
        PDict items \<Rightarrow> (case map_of items key of None \<Rightarrow> Inl KeyError | Some v \<Rightarrow> Inr v)
      | _ \<Rightarrow> Inl TypeError)"

definition get_default :: "pyval \<Rightarrow> string \<Rightarrow> pyval \<Rightarrow> py_error + pyval" where
  "get_default data key dflt =
     (case data of
        PDict items \<Rightarrow> (case map_of items key of None \<Rightarrow> Inr dflt | Some v \<Rightarrow> Inr v)
      | _ \<Rightarrow> Inl AttributeError)"

text \<open>
  The dataclasses store what they are given without checking it against the field's
  annotation.  The records of this theory are typed, so a value of another type than
  the annotation cannot be stored: the model answers \<open>NotModelled\<close>.
\<close>

definition as_str :: "pyval \<Rightarrow> py_error + string" where
  "as_str v = (case v of PStr s \<Rightarrow> Inr s | _ \<Rightarrow> Inl NotModelled)"

definition as_float :: "pyval \<Rightarrow> py_error + real" where
  "as_float v = (case v of PFloat r \<Rightarrow> Inr r | _ \<Rightarrow> Inl NotModelled)"

definition as_bool :: "pyval \<Rightarrow> py_error + bool" where
  "as_bool v = (case v of PBool b \<Rightarrow> Inr b | _ \<Rightarrow> Inl NotModelled)"

text \<open>\<^verbatim>\<open>datetime.fromisoformat(v)\<close> raises \<^verbatim>\<open>TypeError\<close> unless \<open>v\<close> is a string.\<close>

definition fromisoformat_value :: "pyval \<Rightarrow> py_error + datetime" where
  "fromisoformat_value v = (case v of PStr s \<Rightarrow> fromisoformat s | _ \<Rightarrow> Inl TypeError)"

fun Outcome_value :: "Outcome \<Rightarrow> string" where
  "Outcome_value YES = ''YES''"
| "Outcome_value NO = ''NO''"

definition Outcome_of_value :: "pyval \<Rightarrow> py_error + Outcome" where
  "Outcome_of_value v =
     (if v = PStr ''YES'' then Inr YES else if v = PStr ''NO'' then Inr NO else Inl ValueError)"

fun Side_value :: "Side \<Rightarrow> string" where
  "Side_value BUY = ''BUY''"
| "Side_value SELL = ''SELL''"

definition Side_of_value :: "pyval \<Rightarrow> py_error + Side" where
  "Side_of_value v =
     (if v = PStr ''BUY'' then Inr BUY else if v = PStr ''SELL'' then Inr SELL
      else Inl ValueError)"

definition Position_to_dict :: "Position \<Rightarrow> pyval" where
  "Position_to_dict self =
     PDict [(''token_id'', PStr (token_id self)),
            (''outcome'', PStr (Outcome_value (outcome self))),
            (''quantity'', PFloat (quantity self)),
            (''total_cost'', PFloat (total_cost self))]"

definition Position_from_dict :: "pyval \<Rightarrow> py_error + Position" where
  "Position_from_dict data =
     bind_err (bind_err (getitem data ''token_id'') as_str) (\<lambda>tok.
     bind_err (bind_err (getitem data ''outcome'') Outcome_of_value) (\<lambda>oc.
     bind_err (bind_err (getitem data ''quantity'') as_float) (\<lambda>qty.
     bind_err (bind_err (getitem data ''total_cost'') as_float) (\<lambda>cost.
     Inr \<lparr>token_id = tok, outcome = oc, quantity = qty, total_cost = cost\<rparr>))))"

definition MarketPosition_to_dict :: "MarketPosition \<Rightarrow> pyval" where
  "MarketPosition_to_dict self =
     PDict [(''condition_id'', PStr (condition_id self)),
            (''yes_position'', Position_to_dict (yes_position self)),
            (''no_position'', Position_to_dict (no_position self))]"

definition MarketPosition_from_dict :: "pyval \<Rightarrow> py_error + MarketPosition" where
  "MarketPosition_from_dict data =
     bind_err (bind_err (getitem data ''condition_id'') as_str) (\<lambda>cid.
     bind_err (bind_err (getitem data ''yes_position'') Position_from_dict) (\<lambda>yes.
     bind_err (bind_err (getitem data ''no_position'') Position_from_dict) (\<lambda>no.
     Inr \<lparr>condition_id = cid, yes_position = yes, no_position = no\<rparr>)))"

definition to_order_args :: "Quote \<Rightarrow> pyval" where
  "to_order_args self =
     PDict [(''token_id'', PStr (q_token_id self)),
            (''price'', PFloat (q_price self)),
            (''size'', PFloat (q_size self)),
            (''side'', PStr (Side_value (q_side self)))]"

definition Fill_to_dict :: "Fill \<Rightarrow> pyval" where
  "Fill_to_dict self =
     PDict [(''order_id'', PStr (fill_order_id self)),
            (''token_id'', PStr (fill_token_id self)),
            (''outcome'', PStr (Outcome_value (fill_outcome self))),
            (''side'', PStr (Side_value (fill_side self))),
            (''price'', PFloat (fill_price self)),
            (''size'', PFloat (fill_size self)),
            (''timestamp'', PStr (isoformat (fill_timestamp self))),
            (''maker'', PBool (fill_maker self))]"

definition Fill_from_dict :: "pyval \<Rightarrow> py_error + Fill" where
  "Fill_from_dict data =
     bind_err (bind_err (getitem data ''order_id'') as_str) (\<lambda>oid.
     bind_err (bind_err (getitem data ''token_id'') as_str) (\<lambda>tok.
     bind_err (bind_err (getitem data ''outcome'') Outcome_of_value) (\<lambda>oc.
     bind_err (bind_err (getitem data ''side'') Side_of_value) (\<lambda>sd.
     bind_err (bind_err (getitem data ''price'') as_float) (\<lambda>pr.
     bind_err (bind_err (getitem data ''size'') as_float) (\<lambda>sz.
     bind_err (bind_err (getitem data ''timestamp'') fromisoformat_value) (\<lambda>ts.
     bind_err (bind_err (get_default data ''maker'' (PBool True)) as_bool) (\<lambda>mk.
     Inr \<lparr>fill_order_id = oid, fill_token_id = tok, fill_outcome = oc, fill_side = sd,
          fill_price = pr, fill_size = sz, fill_timestamp = ts, fill_maker = mk\<rparr>))))))))"

text \<open>
  \<^verbatim>\<open>BotState\<close>.  Its two dictionaries are kept as lists of items in insertion order,
  which is what \<^verbatim>\<open>.items()\<close> iterates over; the keys of a dictionary are distinct.
\<close>

record BotState =
  bs_positions :: "(string \<times> MarketPosition) list"
  open_orders :: "(string \<times> Quote) list"
  fills :: "Fill list"
  total_maker_volume :: real
  total_rebates_estimate :: real
  last_updated :: datetime

text \<open>The slice \<^verbatim>\<open>xs[-1000:]\<close>: the last 1000 elements, or all of them.\<close>

definition last_1000 :: "'a list \<Rightarrow> 'a list" where
  "last_1000 xs = drop (length xs - 1000) xs"

definition BotState_to_dict :: "BotState \<Rightarrow> pyval" where
  "BotState_to_dict self =
     PDict [(''positions'',
               PDict (map (\<lambda>(k, v). (k, MarketPosition_to_dict v)) (bs_positions self))),
            (''open_orders'', PDict (map (\<lambda>(k, v). (k, to_order_args v)) (open_orders self))),
            (''fills'', PList (map Fill_to_dict (last_1000 (fills self)))),
            (''total_maker_volume'', PFloat (total_maker_volume self)),
            (''total_rebates_estimate'', PFloat (total_rebates_estimate self)),
            (''last_updated'', PStr (isoformat (last_updated self)))]"

text \<open>
  \<^verbatim>\<open>.items()\<close> of the positions entry, and the iteration over the fills entry.  A value
  without \<^verbatim>\<open>items\<close> raises \<^verbatim>\<open>AttributeError\<close>.  Iterating an empty string or
  dictionary yields nothing; a non-empty one yields strings, on which \<^verbatim>\<open>Fill.from_dict\<close>
  raises \<^verbatim>\<open>TypeError\<close>, as does iterating a float or a boolean.
\<close>

definition items_of :: "pyval \<Rightarrow> py_error + (string \<times> pyval) list" where
  "items_of v = (case v of PDict items \<Rightarrow> Inr items | _ \<Rightarrow> Inl AttributeError)"

definition fills_from :: "pyval \<Rightarrow> py_error + Fill list" where
  "fills_from v =
     (case v of
        PList xs \<Rightarrow> map_err Fill_from_dict xs
      | PDict items \<Rightarrow> if items = [] then Inr [] else Inl TypeError
      | PStr s \<Rightarrow> if s = [] then Inr [] else Inl TypeError
      | _ \<Rightarrow> Inl TypeError)"

text \<open>
  \<^verbatim>\<open>BotState.from_dict\<close>; \<open>now\<close> is the value of \<^verbatim>\<open>datetime.utcnow()\<close>, read only
  when the document has no \<^verbatim>\<open>"last_updated"\<close>.
\<close>

definition BotState_from_dict :: "pyval \<Rightarrow> datetime \<Rightarrow> py_error + BotState" where
  "BotState_from_dict data now =
     bind_err (bind_err (bind_err (get_default data ''positions'' (PDict [])) items_of)
                 (map_err (\<lambda>(k, v). bind_err (MarketPosition_from_dict v) (\<lambda>p. Inr (k, p)))))
       (\<lambda>ps.
     bind_err (bind_err (get_default data ''fills'' (PList [])) fills_from) (\<lambda>fs.
     bind_err (bind_err (get_default data ''total_maker_volume'' (PFloat 0)) as_float) (\<lambda>vol.
     bind_err (bind_err (get_default data ''total_rebates_estimate'' (PFloat 0)) as_float)
       (\<lambda>reb.
     bind_err (case data of
                 PDict items \<Rightarrow>
                   (case map_of items ''last_updated'' of
                      Some v \<Rightarrow> fromisoformat_value v
                    | None \<Rightarrow> Inr now)
               | _ \<Rightarrow> Inl TypeError) (\<lambda>upd.
     Inr \<lparr>bs_positions = ps, open_orders = [], fills = fs, total_maker_volume = vol,
          total_rebates_estimate = reb, last_updated = upd\<rparr>)))))"

text \<open>
  A valid state: dictionary keys are distinct, the fills respect the cap of 1000 that
  \<^verbatim>\<open>StateManager.record_fill\<close> maintains, and every timestamp is a datetime.
\<close>

definition valid_state :: "BotState \<Rightarrow> bool" where
  "valid_state s =
     (distinct (map fst (bs_positions s)) \<and> distinct (map fst (open_orders s))
      \<and> length (fills s) \<le> 1000
      \<and> list_all (\<lambda>f. valid_datetime (fill_timestamp f)) (fills s)
      \<and> valid_datetime (last_updated s))"

section \<open>state\_manager.py\<close>

text \<open>\<^verbatim>\<open>StateManager.record_fill\<close> on the state it holds.\<close>

definition state_record_fill :: "BotState \<Rightarrow> Fill \<Rightarrow> BotState" where
  "state_record_fill s fill =
     (let appended = fills s @ [fill];
          kept = (if length appended > 1000 then last_1000 appended else appended)
      in s\<lparr>fills := kept,
           total_maker_volume :=
             (if fill_maker fill then total_maker_volume s + notional fill
              else total_maker_volume s)\<rparr>)"

section \<open>Sample values\<close>

text \<open>Concrete positions, a tracker and a quote generator on which the theorems are run.\<close>

text \<open>The binary64 values that the literals \<^verbatim>\<open>1.2\<close> and \<^verbatim>\<open>3.6\<close> denote.\<close>

definition d12 :: real where
  "d12 = 5404319552844595 / 4503599627370496"

definition d36 :: real where
  "d36 = 8106479329266893 / 2251799813685248"

definition mk_position :: "string \<Rightarrow> real \<Rightarrow> real \<Rightarrow> MarketPosition" where
  "mk_position cid y n = \<lparr>condition_id = cid,
      yes_position = \<lparr>token_id = ''y'', outcome = YES, quantity = y, total_cost = 0\<rparr>,
      no_position = \<lparr>token_id = ''n'', outcome = NO, quantity = n, total_cost = 0\<rparr>\<rparr>"

definition example_tracker :: "real \<Rightarrow> InventoryTracker" where
  "example_tracker t =
     \<lparr>positions = [''m1'' \<mapsto> mk_position ''m1'' 15 10, ''m2'' \<mapsto> mk_position ''m2'' 10 15,
                   ''m3'' \<mapsto> mk_position ''m3'' 0 1, ''m4'' \<mapsto> mk_position ''m4'' 3 d36,
                   ''m5'' \<mapsto> mk_position ''m5'' d36 3],
      skew_threshold = t\<rparr>"

definition example_generator :: "real \<Rightarrow> QuoteGenerator" where
  "example_generator t = QuoteGenerator_init
     \<lparr>cfg_min_price = 2 / 10, cfg_max_price = 8 / 10, cfg_tick_size = 1 / 100,
      cfg_base_quote_size = 5, cfg_skew_threshold = t\<rparr>"

definition example_fill :: "Outcome \<Rightarrow> Side \<Rightarrow> Fill" where
  "example_fill oc sd =
     \<lparr>fill_order_id = ''o1'', fill_token_id = ''y'', fill_outcome = oc, fill_side = sd,
      fill_price = 4 / 10, fill_size = 10,
      fill_timestamp = \<lparr>year = 2024, month = 1, day = 2, hour = 3, minute = 4, second = 5,
                         microsecond = 6\<rparr>,
      fill_maker = True\<rparr>"

definition example_level :: "real \<Rightarrow> real \<Rightarrow> OrderBookLevel" where
  "example_level p s = \<lparr>level_price = p, level_size = s\<rparr>"

definition example_book :: "OrderBookLevel list \<Rightarrow> OrderBook" where
  "example_book bs =
     \<lparr>ob_token_id = ''y'', bids = bs, asks = [],
      ob_timestamp = \<lparr>year = 2024, month = 1, day = 2, hour = 3, minute = 4, second = 5,
                       microsecond = 6\<rparr>\<rparr>"

definition example_time :: datetime where
  "example_time = \<lparr>year = 2024, month = 2, day = 29, hour = 23, minute = 59, second = 58,
                     microsecond = 0\<rparr>"

definition example_quote :: Quote where
  "example_quote = \<lparr>q_token_id = ''y'', q_outcome = YES, q_side = BUY, q_price = 41 / 100,
                      q_size = 5, q_order_id = Some ''o1''\<rparr>"

definition example_state :: BotState where
  "example_state =
     \<lparr>bs_positions = [(''m1'', mk_position ''m1'' 15 10)],
      open_orders = [(''o1'', example_quote)],
      fills = [example_fill YES BUY],
      total_maker_volume = 4, total_rebates_estimate = 4 / 1000,
      last_updated = example_time\<rparr>"

section \<open>Properties of the breakeven calculator\<close>

lemma calculate_max_bid_cases:
  "calculate_max_bid self oc sy qy an sn qn ay n =
     (let partner = (if oc = YES then an else ay);
          spend = (if oc = YES then sy else sn);
          qty = (if oc = YES then qy else qn)
      in if n \<le> 0 \<or> effective_target self \<le> partner then Inr 0
         else Inr (max (1 / 100)
                (min (99 / 100) (((effective_target self - partner) * (qty + n) - spend) / n))))"
  by (simp add: calculate_max_bid_def calc_max_yes_bid_def calc_max_no_bid_def
      unclamped_max_price_def py_div_def Let_def)

lemma clamp_bounds:
  fixes x :: real
  shows "1 / 100 \<le> max (1 / 100) (min (99 / 100) x)"
    and "max (1 / 100) (min (99 / 100) x) \<le> 99 / 100"
    and "max (1 / 100) (min (99 / 100) x) \<noteq> 0"
  by (simp_all add: max_def min_def)

lemma clamp_mono:
  fixes x y :: real
  assumes "x \<le> y"
  shows "max (1 / 100) (min (99 / 100) x) \<le> max (1 / 100) (min (99 / 100) y)"
  using assms by (simp add: max_def min_def)

text \<open>
  Claim C3.  \<^verbatim>\<open>calculate_max_bid\<close> always returns a price; that price is 0 exactly
  when \<^verbatim>\<open>new_qty <= 0\<close> or the average cost of the partner side is at least the
  effective target, in every other case it lies between 0.01 and 0.99, and so it is
  always 0 or a price between 0.01 and 0.99.
\<close>

theorem calculate_max_bid_clamp_law:
  "\<exists>p. calculate_max_bid self oc sy qy an sn qn ay n = Inr p
     \<and> (p = 0 \<longleftrightarrow> (n \<le> 0 \<or> effective_target self \<le> (if oc = YES then an else ay)))
     \<and> (\<not> (n \<le> 0 \<or> effective_target self \<le> (if oc = YES then an else ay))
          \<longrightarrow> 1 / 100 \<le> p \<and> p \<le> 99 / 100)
     \<and> (p = 0 \<or> (1 / 100 \<le> p \<and> p \<le> 99 / 100))"
proof (cases "n \<le> 0 \<or> effective_target self \<le> (if oc = YES then an else ay)")
  case True
  then have "calculate_max_bid self oc sy qy an sn qn ay n = Inr 0"
    unfolding calculate_max_bid_cases by (simp add: Let_def)
  with True show ?thesis by simp
next
  case False
  define x where "x = ((effective_target self - (if oc = YES then an else ay))
      * ((if oc = YES then qy else qn) + n) - (if oc = YES then sy else sn)) / n"
  from False have "calculate_max_bid self oc sy qy an sn qn ay n
      = Inr (max (1 / 100) (min (99 / 100) x))"
    unfolding calculate_max_bid_cases x_def by (simp add: Let_def)
  with False clamp_bounds [of x] show ?thesis by simp
qed

theorem calculate_max_bid_clamp_law_witness:
  "\<exists>p. calculate_max_bid (BreakevenCalculator_init (99 / 100) (5 / 1000)) YES
          4 10 (1 / 2) 0 0 (4 / 10) 5 = Inr p
     \<and> p \<noteq> 0 \<and> 1 / 100 \<le> p \<and> p \<le> 99 / 100"
  using calculate_max_bid_clamp_law
    [of "BreakevenCalculator_init (99 / 100) (5 / 1000)" YES 4 10 "1 / 2" 0 0 "4 / 10" 5]
  by (auto simp add: BreakevenCalculator_init_def)

lemma projected_cost_formula:
  assumes "0 \<le> qy" "0 \<le> qn" "0 < n"
  shows "calculate_projected_box_cost self oc p n sy qy sn qn =
     ((if oc = YES then sy else sn) + p * n) / ((if oc = YES then qy else qn) + n)
       + (if oc = YES then avg_cost_of sn qn else avg_cost_of sy qy)"
  using assms by (simp add: calculate_projected_box_cost_def avg_cost_of_def Let_def)

lemma cost_le_iff:
  fixes s q n a e p :: real
  assumes "0 \<le> q" "0 < n"
  shows "(s + p * n) / (q + n) + a \<le> e \<longleftrightarrow> p \<le> ((e - a) * (q + n) - s) / n"
proof -
  from assms have qn: "0 < q + n" by simp
  have "(s + p * n) / (q + n) + a \<le> e \<longleftrightarrow> (s + p * n) / (q + n) \<le> e - a" by auto
  also have "\<dots> \<longleftrightarrow> s + p * n \<le> (e - a) * (q + n)"
    using qn by (simp add: pos_divide_le_eq)
  also have "\<dots> \<longleftrightarrow> p * n \<le> (e - a) * (q + n) - s" by auto
  also have "\<dots> \<longleftrightarrow> p \<le> ((e - a) * (q + n) - s) / n"
    using assms(2) by (simp add: pos_le_divide_eq)
  finally show ?thesis .
qed

lemma cost_less_iff:
  fixes s q n a e p :: real
  assumes "0 \<le> q" "0 < n"
  shows "e < (s + p * n) / (q + n) + a \<longleftrightarrow> ((e - a) * (q + n) - s) / n < p"
  using cost_le_iff [OF assms, of s p a e] by auto

lemma cost_eq_at:
  fixes s q n a e :: real
  assumes "0 \<le> q" "0 < n"
  shows "(s + ((e - a) * (q + n) - s) / n * n) / (q + n) + a = e"
proof -
  from assms have "q + n \<noteq> 0" "n \<noteq> 0" by simp_all
  then show ?thesis by simp
qed

text \<open>
  Claim C8.  With the own-side spend, the own-side quantity (non-negative) and
  \<^verbatim>\<open>new_qty > 0\<close> fixed, \<^verbatim>\<open>calculate_max_bid\<close> is non-increasing in the average cost
  of the partner side, also across the boundary where it drops to 0: for partner
  averages \<open>a1 \<le> a2\<close> the bid at \<open>a2\<close> is at most the bid at \<open>a1\<close>.  Stated for a
  YES bid (partner average \<^verbatim>\<open>avg_cost_no\<close>) and for a NO bid (partner average
  \<^verbatim>\<open>avg_cost_yes\<close>).
\<close>

theorem calculate_max_bid_antimono_partner:
  assumes "0 \<le> qy" and "0 \<le> qn" and "0 < n" and "a1 \<le> a2"
  shows "(\<exists>p1 p2. calculate_max_bid self YES sy qy a1 sn qn ay n = Inr p1
            \<and> calculate_max_bid self YES sy qy a2 sn qn ay n = Inr p2 \<and> p2 \<le> p1)
       \<and> (\<exists>p1 p2. calculate_max_bid self NO sy qy an sn qn a1 n = Inr p1
            \<and> calculate_max_bid self NO sy qy an sn qn a2 n = Inr p2 \<and> p2 \<le> p1)"
proof -
  have mono: "max (1 / 100) (min (99 / 100) (((e - a2) * (q + n) - s) / n))
      \<le> max (1 / 100) (min (99 / 100) (((e - a1) * (q + n) - s) / n))"
    if "0 \<le> q" for e q s :: real
  proof (rule clamp_mono)
    from that assms(3) have "0 \<le> q + n" by simp
    with assms(4) have "(e - a2) * (q + n) \<le> (e - a1) * (q + n)"
      by (intro mult_right_mono) simp_all
    then have "(e - a2) * (q + n) - s \<le> (e - a1) * (q + n) - s" by simp
    with assms(3) show "((e - a2) * (q + n) - s) / n \<le> ((e - a1) * (q + n) - s) / n"
      by (simp add: divide_right_mono)
  qed
  have pos: "0 \<le> max (1 / 100) (min (99 / 100) x)" for x :: real
    using clamp_bounds(1) [of x] by simp
  show ?thesis
    unfolding calculate_max_bid_cases
    using assms mono [OF assms(1)] mono [OF assms(2)] pos
    by (auto simp add: Let_def)
qed


theorem calculate_max_bid_antimono_partner_witness:
  "(\<exists>p1 p2. calculate_max_bid (BreakevenCalculator_init (99 / 100) (5 / 1000)) YES
              4 10 (3 / 10) 4 10 (4 / 10) 5 = Inr p1
          \<and> calculate_max_bid (BreakevenCalculator_init (99 / 100) (5 / 1000)) YES
              4 10 (1 / 2) 4 10 (4 / 10) 5 = Inr p2 \<and> p2 \<le> p1)
   \<and> (\<exists>p1 p2. calculate_max_bid (BreakevenCalculator_init (99 / 100) (5 / 1000)) NO
              4 10 (4 / 10) 4 10 (3 / 10) 5 = Inr p1
          \<and> calculate_max_bid (BreakevenCalculator_init (99 / 100) (5 / 1000)) NO
              4 10 (4 / 10) 4 10 (1 / 2) 5 = Inr p2 \<and> p2 \<le> p1)"
proof -
  have h: "(0::real) \<le> 10" "(0::real) \<le> 10" "(0::real) < 5" "(3 / 10 :: real) \<le> 1 / 2"
    by simp_all
  show ?thesis
    by (rule calculate_max_bid_antimono_partner [OF h])
qed

text \<open>
  Claim C1 as stated fails where the clamp is active.  With an empty YES side, a NO side
  of 10 shares bought for 9.80 (average 0.98) and the default target (0.985 effective),
  the unclamped price is 0.005, the method returns the floor 0.01, and a fill of 10
  shares at 0.01 gives a projected box cost of 0.99, above the effective target.
\<close>

theorem max_bid_floor_clamp_counterexample:
  "calculate_max_bid (BreakevenCalculator_init (99 / 100) (5 / 1000)) YES
       0 0 (avg_cost_of (98 / 10) 10) (98 / 10) 10 (avg_cost_of 0 0) 10 = Inr (1 / 100)
   \<and> calculate_projected_box_cost (BreakevenCalculator_init (99 / 100) (5 / 1000)) YES
         (1 / 100) 10 0 0 (98 / 10) 10 = 99 / 100
   \<and> effective_target (BreakevenCalculator_init (99 / 100) (5 / 1000)) = 985 / 1000
   \<and> \<not> calculate_projected_box_cost (BreakevenCalculator_init (99 / 100) (5 / 1000)) YES
         (1 / 100) 10 0 0 (98 / 10) 10
       < effective_target (BreakevenCalculator_init (99 / 100) (5 / 1000))"
  by (simp add: calculate_max_bid_cases BreakevenCalculator_init_def avg_cost_of_def
      calculate_projected_box_cost_def Let_def)

text \<open>
  At the other end of the clamp the returned price is not the largest admissible one:
  with 10 YES shares bought for 1.00 and no NO shares the method returns 0.99, and a fill
  of 5 shares at the greater price 1.00 still projects a box cost of 0.40.
\<close>

lemma max_bid_ceiling_clamp_not_tight:
  "calculate_max_bid (BreakevenCalculator_init (99 / 100) (5 / 1000)) YES
       1 10 (avg_cost_of 0 0) 0 0 (avg_cost_of 1 10) 5 = Inr (99 / 100)
   \<and> calculate_projected_box_cost (BreakevenCalculator_init (99 / 100) (5 / 1000)) YES
         1 5 1 10 0 0 = 4 / 10
   \<and> calculate_projected_box_cost (BreakevenCalculator_init (99 / 100) (5 / 1000)) YES
         1 5 1 10 0 0
       < effective_target (BreakevenCalculator_init (99 / 100) (5 / 1000))"
  by (simp add: calculate_max_bid_cases BreakevenCalculator_init_def avg_cost_of_def
      calculate_projected_box_cost_def Let_def)

text \<open>
  Claim C1, amended.  Take non-negative quantities and spends, each average cost equal to
  spend over quantity when the quantity is positive and 0 otherwise, \<^verbatim>\<open>new_qty > 0\<close>,
  and a partner average below the effective target; let \<open>x\<close> be the price the method
  computes before clamping, and \<open>p\<close> the price it returns.  If \<open>x \<ge> 0.01\<close>, a fill of
  \<^verbatim>\<open>new_qty\<close> shares at \<open>p\<close> projects a box cost of at most the effective target.  If
  \<open>x \<le> 0.99\<close>, every price strictly greater than \<open>p\<close> projects a box cost strictly
  above the effective target.  If both hold, \<open>p = x\<close> and the projected box cost at \<open>p\<close>
  is the effective target itself (in exact arithmetic it is reached, not undercut).
\<close>

theorem max_bid_breakeven_when_unclamped:
  assumes "0 \<le> sy" and "0 \<le> qy" and "0 \<le> sn" and "0 \<le> qn" and "0 < n"
    and "(if oc = YES then avg_cost_of sn qn else avg_cost_of sy qy) < effective_target self"
    and "unclamped_max_price self (if oc = YES then sy else sn)
           (if oc = YES then qy else qn)
           (if oc = YES then avg_cost_of sn qn else avg_cost_of sy qy) n = Inr x"
  shows "\<exists>p. calculate_max_bid self oc sy qy (avg_cost_of sn qn) sn qn (avg_cost_of sy qy) n
            = Inr p
     \<and> (1 / 100 \<le> x \<longrightarrow>
          calculate_projected_box_cost self oc p n sy qy sn qn \<le> effective_target self)
     \<and> (x \<le> 99 / 100 \<longrightarrow>
          (\<forall>p'. p < p' \<longrightarrow>
             effective_target self < calculate_projected_box_cost self oc p' n sy qy sn qn))
     \<and> (1 / 100 \<le> x \<and> x \<le> 99 / 100 \<longrightarrow>
          p = x \<and> calculate_projected_box_cost self oc p n sy qy sn qn = effective_target self)"
proof -
  define own_s where "own_s = (if oc = YES then sy else sn)"
  define own_q where "own_q = (if oc = YES then qy else qn)"
  define a where "a = (if oc = YES then avg_cost_of sn qn else avg_cost_of sy qy)"
  define e where "e = effective_target self"
  define p where "p = max (1 / 100) (min (99 / 100) x)"
  have q0: "0 \<le> own_q" using assms(2,4) by (simp add: own_q_def)
  have x_eq: "x = ((e - a) * (own_q + n) - own_s) / n"
    using assms(5,7) by (simp add: unclamped_max_price_def py_div_def Let_def
        own_s_def own_q_def a_def e_def)
  have ret: "calculate_max_bid self oc sy qy (avg_cost_of sn qn) sn qn (avg_cost_of sy qy) n
      = Inr p"
    using assms(5,6) unfolding calculate_max_bid_cases p_def x_eq own_s_def own_q_def a_def e_def
    by (simp add: Let_def)
  have cost: "calculate_projected_box_cost self oc r n sy qy sn qn
      = (own_s + r * n) / (own_q + n) + a" for r
    using projected_cost_formula [OF assms(2,4,5)] by (simp add: own_s_def own_q_def a_def)
  have le: "calculate_projected_box_cost self oc r n sy qy sn qn \<le> e \<longleftrightarrow> r \<le> x" for r
    unfolding cost x_eq by (rule cost_le_iff [OF q0 assms(5)])
  have gt: "e < calculate_projected_box_cost self oc r n sy qy sn qn \<longleftrightarrow> x < r" for r
    unfolding cost x_eq by (rule cost_less_iff [OF q0 assms(5)])
  have c1: "calculate_projected_box_cost self oc p n sy qy sn qn \<le> e" if "1 / 100 \<le> x"
    using that unfolding le p_def by (simp add: max_def min_def)
  have c2: "e < calculate_projected_box_cost self oc r n sy qy sn qn"
    if "x \<le> 99 / 100" "p < r" for r
    using that unfolding gt p_def by (simp add: max_def min_def split: if_splits)
  have c3: "p = x \<and> calculate_projected_box_cost self oc p n sy qy sn qn = e"
    if "1 / 100 \<le> x" "x \<le> 99 / 100"
  proof -
    from that have px: "p = x" by (simp add: p_def max_def min_def)
    have "calculate_projected_box_cost self oc x n sy qy sn qn = e"
      unfolding cost unfolding x_eq by (rule cost_eq_at [OF q0 assms(5)])
    with px show ?thesis by simp
  qed
  from ret c1 c2 c3 show ?thesis unfolding e_def by blast
qed


theorem max_bid_breakeven_when_unclamped_witness:
  "\<exists>p. calculate_max_bid (BreakevenCalculator_init (99 / 100) (5 / 1000)) YES
          4 10 (avg_cost_of 5 10) 5 10 (avg_cost_of 4 10) 5 = Inr p
     \<and> p = 131 / 200
     \<and> calculate_projected_box_cost (BreakevenCalculator_init (99 / 100) (5 / 1000)) YES
          p 5 4 10 5 10 = 985 / 1000
     \<and> (\<forall>p'. p < p' \<longrightarrow>
           985 / 1000 < calculate_projected_box_cost
             (BreakevenCalculator_init (99 / 100) (5 / 1000)) YES p' 5 4 10 5 10)"
proof -
  let ?c = "BreakevenCalculator_init (99 / 100) (5 / 1000)"
  have e: "effective_target ?c = 985 / 1000"
    by (simp add: BreakevenCalculator_init_def)
  have h1: "(0::real) \<le> 4" "(0::real) \<le> 10" "(0::real) \<le> 5" "(0::real) \<le> 10" "(0::real) < 5"
    by simp_all
  have h2: "(if YES = YES then avg_cost_of 5 10 else avg_cost_of 4 10) < effective_target ?c"
    by (simp add: avg_cost_of_def BreakevenCalculator_init_def)
  have h3: "unclamped_max_price ?c (if YES = YES then 4 else 5) (if YES = YES then 10 else 10)
      (if YES = YES then avg_cost_of 5 10 else avg_cost_of 4 10) 5 = Inr (131 / 200)"
    by (simp add: unclamped_max_price_def py_div_def avg_cost_of_def
        BreakevenCalculator_init_def Let_def)
  from max_bid_breakeven_when_unclamped [OF h1 h2 h3] show ?thesis
    unfolding e by auto
qed

section \<open>Properties of binary64 rounding\<close>

lemma py_round_floor_le: "\<lfloor>z\<rfloor> \<le> py_round z"
  by (simp add: py_round_def Let_def)

lemma py_round_le_ceiling: "py_round z \<le> \<lceil>z\<rceil>"
proof -
  have "\<lceil>z\<rceil> = \<lfloor>z\<rfloor> + 1" if "z \<noteq> of_int \<lfloor>z\<rfloor>"
    using that by (metis ceiling_altdef)
  moreover have "py_round z = \<lfloor>z\<rfloor>" if "z = of_int \<lfloor>z\<rfloor>"
    using that by (simp add: py_round_def Let_def)
  moreover have "py_round z \<le> \<lfloor>z\<rfloor> + 1" by (simp add: py_round_def Let_def)
  ultimately show ?thesis by (cases "z = of_int \<lfloor>z\<rfloor>") (auto simp: ceiling_altdef)
qed

lemma py_round_upper: "z \<le> of_int N \<Longrightarrow> py_round z \<le> N"
  using py_round_le_ceiling [of z] by (meson ceiling_le order_trans)

lemma py_round_lower: "of_int N \<le> z \<Longrightarrow> N \<le> py_round z"
  using py_round_floor_le [of z] by (meson le_floor_iff order_trans)

lemma py_round_mono:
  assumes "z \<le> z'"
  shows "py_round z \<le> py_round z'"
proof (cases "\<lfloor>z\<rfloor> = \<lfloor>z'\<rfloor>")
  case True
  with assms show ?thesis by (auto simp add: py_round_def Let_def)
next
  case False
  with assms have "\<lfloor>z\<rfloor> < \<lfloor>z'\<rfloor>" by (simp add: floor_mono order.strict_iff_order)
  then have "\<lfloor>z\<rfloor> + 1 \<le> \<lfloor>z'\<rfloor>" by simp
  moreover have "py_round z \<le> \<lfloor>z\<rfloor> + 1" by (simp add: py_round_def Let_def)
  ultimately show ?thesis using py_round_floor_le [of z'] by linarith
qed

lemma py_round_error: "\<bar>of_int (py_round z) - z\<bar> \<le> 1 / 2"
proof -
  have "of_int \<lfloor>z\<rfloor> \<le> z" "z < of_int \<lfloor>z\<rfloor> + 1" by linarith+
  then show ?thesis by (auto simp add: py_round_def Let_def abs_le_iff)
qed

lemma binade_bounds:
  assumes "0 < x"
  shows "2 powi binade x \<le> x" and "x < 2 powi (binade x + 1)"
proof -
  show "2 powi binade x \<le> x"
  proof (cases "1 \<le> x")
    case True
    then have f: "0 < \<lfloor>x\<rfloor>" by simp
    from bitlen_bounds [OF f] have "2 ^ nat (bitlen \<lfloor>x\<rfloor> - 1) \<le> \<lfloor>x\<rfloor>" by simp
    then have "(2::real) ^ nat (bitlen \<lfloor>x\<rfloor> - 1) \<le> of_int \<lfloor>x\<rfloor>"
      by (metis of_int_le_iff of_int_numeral of_int_power)
    moreover have "of_int \<lfloor>x\<rfloor> \<le> x" by simp
    ultimately have "(2::real) ^ nat (bitlen \<lfloor>x\<rfloor> - 1) \<le> x" by (rule order_trans)
    moreover have "0 \<le> bitlen \<lfloor>x\<rfloor> - 1" using f by (simp add: bitlen_alt_def)
    ultimately show ?thesis using True
      by (simp add: binade_def power_int_nonneg_exp)
  next
    case False
    with assms have "1 < 1 / x" by simp
    then have c: "0 < \<lceil>1 / x\<rceil> - 1" by linarith
    let ?c = "\<lceil>1 / x\<rceil> - 1"
    from bitlen_bounds [OF c] have "?c < 2 ^ nat (bitlen ?c)" by simp
    then have "\<lceil>1 / x\<rceil> \<le> 2 ^ nat (bitlen ?c)" by simp
    then have "1 / x \<le> 2 ^ nat (bitlen ?c)"
      by (metis ceiling_le_iff of_int_numeral of_int_power)
    then have "1 / 2 ^ nat (bitlen ?c) \<le> x"
      using assms by (simp add: field_simps)
    moreover have "2 powi (- bitlen ?c) = 1 / (2::real) ^ nat (bitlen ?c)"
      using bitlen_nonneg [of ?c] by (simp add: power_int_minus_divide power_int_nonneg_exp)
    ultimately show ?thesis using False by (simp add: binade_def)
  qed
  show "x < 2 powi (binade x + 1)"
  proof (cases "1 \<le> x")
    case True
    then have f: "0 < \<lfloor>x\<rfloor>" by simp
    from bitlen_bounds [OF f] have "\<lfloor>x\<rfloor> + 1 \<le> 2 ^ nat (bitlen \<lfloor>x\<rfloor>)" by simp
    then have "of_int (\<lfloor>x\<rfloor> + 1) \<le> (2::real) ^ nat (bitlen \<lfloor>x\<rfloor>)"
      by (metis of_int_le_iff of_int_numeral of_int_power)
    moreover have "x < of_int (\<lfloor>x\<rfloor> + 1)" by linarith
    ultimately have "x < (2::real) ^ nat (bitlen \<lfloor>x\<rfloor>)" by (rule less_le_trans [rotated])
    then show ?thesis using True bitlen_nonneg [of "\<lfloor>x\<rfloor>"]
      by (simp add: binade_def power_int_nonneg_exp)
  next
    case False
    with assms have "1 < 1 / x" by simp
    then have c: "0 < \<lceil>1 / x\<rceil> - 1" by linarith
    let ?c = "\<lceil>1 / x\<rceil> - 1"
    have b1: "1 \<le> bitlen ?c" using c by (simp add: bitlen_alt_def)
    from bitlen_bounds [OF c] have "2 ^ nat (bitlen ?c - 1) \<le> ?c" by simp
    then have "(2::real) ^ nat (bitlen ?c - 1) \<le> of_int ?c"
      by (metis of_int_le_iff of_int_numeral of_int_power)
    moreover have "of_int ?c < 1 / x" by linarith
    ultimately have "(2::real) ^ nat (bitlen ?c - 1) < 1 / x" by linarith
    then have "x < 1 / 2 ^ nat (bitlen ?c - 1)"
      using assms by (simp add: field_simps)
    moreover have "2 powi (- bitlen ?c + 1) = 1 / (2::real) ^ nat (bitlen ?c - 1)"
    proof -
      have "- bitlen ?c + 1 = - (bitlen ?c - 1)" by simp
      then show ?thesis using b1
        by (simp only: power_int_minus_divide) (simp add: power_int_nonneg_exp)
    qed
    ultimately show ?thesis using False by (simp add: binade_def)
  qed
qed


lemma two_powi_less_cancel: "(2::real) powi a < 2 powi b \<Longrightarrow> a < b"
proof (rule ccontr)
  assume "(2::real) powi a < 2 powi b" and "\<not> a < b"
  then have "b \<le> a" by simp
  then have "(2::real) powi b \<le> 2 powi a" by (intro power_int_increasing) auto
  with \<open>(2::real) powi a < 2 powi b\<close> show False by simp
qed

lemma binade_unique:
  assumes "0 < x" and "2 powi e \<le> x" and "x < 2 powi (e + 1)"
  shows "binade x = e"
proof (rule antisym)
  have "(2::real) powi binade x < 2 powi (e + 1)"
    using binade_bounds(1) [OF assms(1)] assms(3) by linarith
  then have "binade x < e + 1" by (rule two_powi_less_cancel)
  then show "binade x \<le> e" by simp
  have "(2::real) powi e < 2 powi (binade x + 1)"
    using binade_bounds(2) [OF assms(1)] assms(2) by linarith
  then have "e < binade x + 1" by (rule two_powi_less_cancel)
  then show "e \<le> binade x" by simp
qed

lemma binade_mono:
  assumes "0 < x" and "x \<le> y"
  shows "binade x \<le> binade y"
proof -
  from assms have y: "0 < y" by simp
  have "(2::real) powi binade x < 2 powi (binade y + 1)"
    using binade_bounds(1) [OF assms(1)] binade_bounds(2) [OF y] assms(2) by linarith
  then have "binade x < binade y + 1" by (rule two_powi_less_cancel)
  then show ?thesis by simp
qed

lemma ulp_pos: "0 < ulp x"
  by (simp add: ulp_def)

lemma ulp_mono: "0 < x \<Longrightarrow> x \<le> y \<Longrightarrow> ulp x \<le> ulp y"
  unfolding ulp_def using binade_mono [of x y] by (intro power_int_increasing) auto

text \<open>A power of two that the grid of \<open>x\<close> contains is not crossed by rounding.\<close>

lemma on_grid:
  assumes "max (binade x) (- 1022) - 52 \<le> k"
  shows "\<exists>N::int. 2 powi k = of_int N * ulp x"
proof -
  let ?E = "max (binade x) (- 1022) - 52"
  have "(2::real) powi k = 2 powi (k - ?E) * 2 powi ?E"
    by (simp add: power_int_add [symmetric])
  also have "(2::real) powi (k - ?E) = 2 ^ nat (k - ?E)"
    using assms by (simp add: power_int_nonneg_exp)
  also have "\<dots> = of_int (2 ^ nat (k - ?E))" by simp
  finally show ?thesis unfolding ulp_def by blast
qed

lemma round_pos_upper:
  assumes "x \<le> 2 powi k" and "max (binade x) (- 1022) - 52 \<le> k"
  shows "round_pos x \<le> 2 powi k"
proof -
  from on_grid [OF assms(2)] obtain N :: int where N: "2 powi k = of_int N * ulp x" by blast
  with assms(1) have "x / ulp x \<le> of_int N" using ulp_pos [of x] by (simp add: field_simps)
  then have "py_round (x / ulp x) \<le> N" by (rule py_round_upper)
  then have "of_int (py_round (x / ulp x)) * ulp x \<le> of_int N * ulp x"
    using ulp_pos [of x] by simp
  then show ?thesis by (simp add: round_pos_def N)
qed

lemma round_pos_lower:
  assumes "2 powi k \<le> x" and "max (binade x) (- 1022) - 52 \<le> k"
  shows "2 powi k \<le> round_pos x"
proof -
  from on_grid [OF assms(2)] obtain N :: int where N: "2 powi k = of_int N * ulp x" by blast
  with assms(1) have "of_int N \<le> x / ulp x" using ulp_pos [of x] by (simp add: field_simps)
  then have "N \<le> py_round (x / ulp x)" by (rule py_round_lower)
  then have "of_int N * ulp x \<le> of_int (py_round (x / ulp x)) * ulp x"
    using ulp_pos [of x] by simp
  then show ?thesis by (simp add: round_pos_def N)
qed

lemma round_pos_mono:
  assumes "0 < x" and "x \<le> y"
  shows "round_pos x \<le> round_pos y"
proof (cases "max (binade x) (- 1022) = max (binade y) (- 1022)")
  case True
  then have u: "ulp x = ulp y" by (simp add: ulp_def)
  have "x / ulp y \<le> y / ulp y" using assms(2) ulp_pos [of y] by (simp add: divide_right_mono)
  then have "py_round (x / ulp y) \<le> py_round (y / ulp y)" by (rule py_round_mono)
  then show ?thesis using ulp_pos [of y] by (simp add: round_pos_def u)
next
  case False
  from assms have y: "0 < y" by simp
  have le: "binade x \<le> binade y" by (rule binade_mono [OF assms])
  with False have lt: "binade x < binade y" and big: "- 1022 < binade y" by auto
  let ?k = "binade y"
  have "x < 2 powi (binade x + 1)" by (rule binade_bounds(2) [OF assms(1)])
  also have "\<dots> \<le> 2 powi ?k" using lt by (intro power_int_increasing) auto
  finally have "x \<le> 2 powi ?k" by simp
  then have "round_pos x \<le> 2 powi ?k" using lt big by (intro round_pos_upper) auto
  moreover have "2 powi ?k \<le> round_pos y"
    using binade_bounds(1) [OF y] big by (intro round_pos_lower) auto
  ultimately show ?thesis by simp
qed

lemma round_pos_error: "\<bar>round_pos x - x\<bar> \<le> ulp x / 2"
proof -
  have "\<bar>of_int (py_round (x / ulp x)) - x / ulp x\<bar> * ulp x \<le> 1 / 2 * ulp x"
    using py_round_error [of "x / ulp x"] ulp_pos [of x] by (intro mult_right_mono) auto
  moreover have "\<bar>of_int (py_round (x / ulp x)) - x / ulp x\<bar> * ulp x
      = \<bar>round_pos x - x\<bar>"
  proof -
    have "(of_int (py_round (x / ulp x)) - x / ulp x) * ulp x = round_pos x - x"
      using ulp_pos [of x] by (simp add: round_pos_def left_diff_distrib)
    then have "\<bar>round_pos x - x\<bar> = \<bar>(of_int (py_round (x / ulp x)) - x / ulp x) * ulp x\<bar>"
      by simp
    also have "\<dots> = \<bar>of_int (py_round (x / ulp x)) - x / ulp x\<bar> * \<bar>ulp x\<bar>"
      by (rule abs_mult)
    finally show ?thesis using ulp_pos [of x] by simp
  qed
  ultimately show ?thesis by simp
qed

lemma round_pos_nonneg: "0 \<le> x \<Longrightarrow> 0 \<le> round_pos x"
proof -
  assume "0 \<le> x"
  then have "of_int 0 \<le> x / ulp x" using ulp_pos [of x] by simp
  then have "0 \<le> py_round (x / ulp x)" by (rule py_round_lower)
  then show ?thesis using ulp_pos [of x] by (simp add: round_pos_def)
qed


lemma binade_one_le: "1 \<le> x \<Longrightarrow> 0 \<le> binade x"
  by (simp add: binade_def bitlen_alt_def)

lemma binade_le_one: "0 < x \<Longrightarrow> x \<le> 1 \<Longrightarrow> binade x \<le> 0"
proof -
  assume x: "0 < x" "x \<le> 1"
  have "(2::real) powi binade x < 2 powi (0 + 1)"
    using binade_bounds(1) [OF x(1)] x(2) by simp
  then have "binade x < 0 + 1" by (rule two_powi_less_cancel)
  then show ?thesis by simp
qed

text \<open>Rounding never reverses the order of two positive numbers.\<close>

lemma to_binary64_mono:
  assumes "0 < x" and "x \<le> y"
  shows "\<not> float_less (to_binary64 y) (to_binary64 x)"
  using round_pos_mono [OF assms] assms
  by (auto simp add: to_binary64_def Let_def)

lemma to_binary64_le_one:
  assumes "0 < x" and "x \<le> 1"
  shows "\<exists>r. to_binary64 x = Finite r \<and> r \<le> 1"
proof -
  have "round_pos x \<le> 2 powi 0"
    using assms binade_le_one [OF assms] by (intro round_pos_upper) auto
  then have "round_pos x \<le> 1" by simp
  moreover have "(1::real) < 2 ^ 1024" by simp
  ultimately show ?thesis using assms(1) by (simp add: to_binary64_def Let_def)
qed

text \<open>A quotient that is not above a binary64 threshold does not round above it.\<close>

lemma not_above_threshold:
  assumes "0 \<le> x" and "x \<le> t" and "0 < t" and "to_binary64 t = Finite t"
  shows "\<not> float_less (Finite t) (to_binary64 x)"
proof (cases "x = 0")
  case True
  with assms(3) show ?thesis by (simp add: to_binary64_def)
next
  case False
  with assms(1) have "0 < x" by simp
  from to_binary64_mono [OF this assms(2)] show ?thesis by (simp add: assms(4))
qed

text \<open>A quotient above the threshold by a relative \<open>2\<^sup>-\<^sup>5\<^sup>0\<close> rounds above it.\<close>

lemma above_threshold:
  assumes "1 < t" and "t * (1 + 1 / 2 ^ 50) \<le> x"
  shows "float_less (Finite t) (to_binary64 x)"
proof -
  have x1: "1 \<le> x" and x0: "0 < x"
  proof -
    have "t \<le> t * (1 + 1 / 2 ^ 50)" using assms(1) by (simp add: mult_le_cancel_left1)
    with assms show "1 \<le> x" "0 < x" by linarith+
  qed
  have b: "0 \<le> binade x" by (rule binade_one_le [OF x1])
  then have "ulp x = 2 powi binade x / 2 ^ 52"
    by (simp add: ulp_def max_def power_int_diff)
  also have "\<dots> \<le> x / 2 ^ 52"
    using binade_bounds(1) [OF x0] by (simp add: divide_right_mono)
  finally have u: "ulp x \<le> x / 2 ^ 52" .
  have "x - ulp x / 2 \<le> round_pos x" using round_pos_error [of x] by linarith
  with u have r: "x * (1 - 1 / 2 ^ 53) \<le> round_pos x" by (simp add: algebra_simps)
  have "t < t * ((1 + 1 / 2 ^ 50) * (1 - 1 / 2 ^ 53))"
    using assms(1) by (simp add: mult_less_cancel_left1)
  also have "\<dots> = (t * (1 + 1 / 2 ^ 50)) * (1 - 1 / 2 ^ 53)" by simp
  also have "\<dots> \<le> x * (1 - 1 / 2 ^ 53)"
    using assms(2) by (intro mult_right_mono) simp_all
  finally have "t < round_pos x" using r by simp
  then show ?thesis using x0 by (simp add: to_binary64_def Let_def)
qed


lemma inverse_threshold:
  assumes "1 < t" and "t \<le> 2 ^ 1022"
  shows "0 < 1 / t" and "1 / t \<le> 1" and "- 1022 \<le> binade (1 / t)" and "ulp (1 / t) \<le> 1 / t / 2 ^ 52"
proof -
  show b0: "0 < 1 / t" and b1: "1 / t \<le> 1" using assms(1) by simp_all
  have "(2::real) powi (- 1022) = 1 / 2 ^ 1022" by (simp add: power_int_minus_divide)
  also have "\<dots> \<le> 1 / t" using assms by (simp add: field_simps)
  finally have low: "2 powi (- 1022) \<le> 1 / t" .
  have "(2::real) powi (- 1022) < 2 powi (binade (1 / t) + 1)"
    using low binade_bounds(2) [OF b0] by linarith
  then have "- 1022 < binade (1 / t) + 1" by (rule two_powi_less_cancel)
  then show e: "- 1022 \<le> binade (1 / t)" by simp
  then have "ulp (1 / t) = 2 powi binade (1 / t) / 2 ^ 52"
    by (simp add: ulp_def max_def power_int_diff)
  also have "\<dots> \<le> 1 / t / 2 ^ 52"
    using binade_bounds(1) [OF b0] by (simp add: divide_right_mono)
  finally show "ulp (1 / t) \<le> 1 / t / 2 ^ 52" .
qed

lemma inverse_rounds_positive:
  assumes "1 < t" and "t \<le> 2 ^ 1022"
  shows "float_less (Finite 0) (to_binary64 (1 / t))"
proof -
  note b = inverse_threshold [OF assms]
  have "2 powi binade (1 / t) \<le> round_pos (1 / t)"
    using binade_bounds(1) [OF b(1)] b(3) by (intro round_pos_lower) auto
  moreover have "(0::real) < 2 powi binade (1 / t)" by simp
  ultimately have "0 < round_pos (1 / t)" by linarith
  then show ?thesis using b(1) by (simp add: to_binary64_def Let_def)
qed

lemma inverse_rounds_below_one:
  assumes "1 < t"
  shows "\<not> float_less (Finite 1) (to_binary64 (1 / t))"
proof -
  from assms have "0 < 1 / t" "1 / t \<le> 1" by simp_all
  from to_binary64_le_one [OF this] show ?thesis by auto
qed

text \<open>
  A quotient below the inverse of the threshold by a relative \<open>2\<^sup>-\<^sup>5\<^sup>0\<close> rounds below
  the rounded inverse.
\<close>

lemma below_inverse:
  assumes "1 < t" and "t \<le> 2 ^ 1022" and "0 < x" and "x * (t * (1 + 1 / 2 ^ 50)) \<le> 1"
  shows "float_less (to_binary64 x) (to_binary64 (1 / t))"
proof -
  define b where "b = 1 / t"
  note bt = inverse_threshold [OF assms(1,2), folded b_def]
  have xb: "x * (1 + 1 / 2 ^ 50) \<le> b"
  proof -
    have "x * (1 + 1 / 2 ^ 50) * t \<le> 1" using assms(4) by (simp add: mult_ac)
    then show ?thesis using assms(1) by (simp add: b_def field_simps)
  qed
  have "x \<le> x * (1 + 1 / 2 ^ 50)" using assms(3) by (simp add: mult_le_cancel_left1)
  with xb have x_le: "x \<le> b" by simp
  have ux: "ulp x \<le> b / 2 ^ 52" using ulp_mono [OF assms(3) x_le] bt(4) by simp
  have "round_pos x \<le> x + ulp x / 2" using round_pos_error [of x] by linarith
  with ux have rx: "round_pos x \<le> x + b / 2 ^ 53" by simp
  have "b - ulp b / 2 \<le> round_pos b" using round_pos_error [of b] by linarith
  with bt(4) have rb: "b - b / 2 ^ 53 \<le> round_pos b" by simp
  have "x * (1 + 1 / 2 ^ 50) < (b - b / 2 ^ 52) * (1 + 1 / 2 ^ 50)"
  proof -
    have "b < b * ((1 - 1 / 2 ^ 52) * (1 + 1 / 2 ^ 50))"
      using bt(1) by (simp add: mult_less_cancel_left1)
    also have "\<dots> = (b - b / 2 ^ 52) * (1 + 1 / 2 ^ 50)" by (simp add: algebra_simps)
    finally show ?thesis using xb by simp
  qed
  then have "x < b - b / 2 ^ 52" by simp
  with rx rb have less: "round_pos x < round_pos b" by simp
  have "round_pos b \<le> 2 powi 0"
    using bt(1,2) binade_le_one [OF bt(1,2)] by (intro round_pos_upper) auto
  then have fin: "round_pos b < 2 ^ 1024" "round_pos x < 2 ^ 1024" using less by simp_all
  show ?thesis
    using fin less assms(3) bt(1) by (simp add: to_binary64_def Let_def b_def)
qed



section \<open>Properties of the skew rule\<close>

lemma tracker_heavy:
  assumes "positions self cid = Some mp"
    and "quantity (yes_position mp) = y" and "quantity (no_position mp) = n"
    and "0 \<le> y" and "0 \<le> n" and "1 < skew_threshold self"
  shows "is_yes_heavy self cid \<longleftrightarrow>
           (0 < n \<and> float_less (Finite (skew_threshold self)) (to_binary64 (y / n)))
           \<or> (n = 0 \<and> 0 < y)"
    and "is_no_heavy self cid \<longleftrightarrow>
           (0 < y \<and> float_less (Finite (skew_threshold self)) (to_binary64 (n / y)))
           \<or> (y = 0 \<and> 0 < n)"
  using assms
  by (auto simp add: is_yes_heavy_def is_no_heavy_def get_skew_ratio_def skew_ratio_def
      inverse_skew_ratio_def)

lemma heavy_exact:
  assumes "0 \<le> y" and "0 \<le> n" and "0 < t" and "to_binary64 t = Finite t"
    and "(0 < n \<and> float_less (Finite t) (to_binary64 (y / n))) \<or> (n = 0 \<and> 0 < y)"
  shows "t * n < y"
proof (cases "n = 0")
  case True
  with assms(5) show ?thesis by simp
next
  case False
  with assms(2,5) have n: "0 < n" and fl: "float_less (Finite t) (to_binary64 (y / n))"
    by auto
  show ?thesis
  proof (rule ccontr)
    assume "\<not> t * n < y"
    then have "y / n \<le> t" using n by (simp add: pos_divide_le_eq)
    moreover have "0 \<le> y / n" using assms(1) n by simp
    ultimately show False using not_above_threshold [OF _ _ assms(3,4)] fl by blast
  qed
qed

lemma heavy_margin:
  assumes "1 < t" and "0 \<le> n" and "0 < y" and "t * (1 + 1 / 2 ^ 50) * n \<le> y"
  shows "(0 < n \<and> float_less (Finite t) (to_binary64 (y / n))) \<or> (n = 0 \<and> 0 < y)"
proof (cases "n = 0")
  case True
  with assms(3) show ?thesis by simp
next
  case False
  with assms(2) have n: "0 < n" by simp
  then have "t * (1 + 1 / 2 ^ 50) \<le> y / n" using assms(4) by (simp add: pos_le_divide_eq)
  from above_threshold [OF assms(1) this] n show ?thesis by simp
qed

lemma not_both_heavy:
  fixes t y n :: real
  assumes "0 \<le> y" and "0 \<le> n" and "1 < t"
  shows "\<not> (t * n < y \<and> t * y < n)"
proof
  assume h: "t * n < y \<and> t * y < n"
  have "n \<le> t * n" using assms(2,3) by (simp add: mult_le_cancel_right1)
  moreover have "y \<le> t * y" using assms(1,3) by (simp add: mult_le_cancel_right1)
  ultimately show False using h by linarith
qed

lemma generator_cases:
  assumes "0 \<le> y" and "0 \<le> n" and "1 < qg_skew_threshold g"
  shows "get_skew_adjustments g (qg_get_skew_ratio g y n) =
     Inr (if (0 < n \<and> float_less (Finite (qg_skew_threshold g)) (to_binary64 (y / n)))
             \<or> (n = 0 \<and> 0 < y) then (- 1, 1)
          else if float_less (qg_get_skew_ratio g y n) (to_binary64 (1 / qg_skew_threshold g))
            then (1, - 1) else (0, 0))"
  using assms
  by (auto simp add: get_skew_adjustments_def qg_get_skew_ratio_def float_div_def)



text \<open>
  Claim C10, amended.  For quantities \<open>y \<ge> 0\<close> and \<open>n \<ge> 0\<close> and one and the same
  binary64 threshold \<open>t\<close> with \<open>1 < t \<le> 2\<^sup>1\<^sup>0\<^sup>2\<^sup>2\<close>, the quote generator returns a pair
  without raising; the pair is \<open>(-1, +1)\<close> exactly when the tracker's pair is; and the
  two pairs are equal whenever a quantity is zero, or the exact ratio \<open>n / y\<close> is at
  most \<open>t\<close>, or it is at least \<open>t (1 + 2\<^sup>-\<^sup>5\<^sup>0)\<close>.  In the strip that remains, where
  \<open>n / y\<close> exceeds \<open>t\<close> by less than a relative \<open>2\<^sup>-\<^sup>5\<^sup>0\<close>, each of the two returns
  \<open>(+1, -1)\<close> or \<open>(0, 0)\<close>: the tracker tests the rounded \<open>n / y\<close> against \<open>t\<close>, the
  generator the rounded \<open>y / n\<close> against the rounded \<open>1 / t\<close>.
\<close>

theorem skew_rules_agree:
  assumes "0 \<le> y" and "0 \<le> n" and "1 < t" and "t \<le> 2 ^ 1022"
    and "to_binary64 t = Finite t"
    and "skew_threshold self = t" and "qg_skew_threshold g = t"
    and "positions self cid = Some mp"
    and "quantity (yes_position mp) = y" and "quantity (no_position mp) = n"
  shows "\<exists>pair. get_skew_adjustments g (qg_get_skew_ratio g y n) = Inr pair
     \<and> (pair = (- 1, 1) \<longleftrightarrow> get_adjustment_direction self cid = (- 1, 1))
     \<and> (y = 0 \<or> n = 0 \<or> n \<le> t * y \<or> t * (1 + 1 / 2 ^ 50) * y \<le> n \<longrightarrow>
          pair = get_adjustment_direction self cid)
     \<and> (t * y < n \<longrightarrow> (pair = (1, - 1) \<or> pair = (0, 0))
          \<and> (get_adjustment_direction self cid = (1, - 1)
               \<or> get_adjustment_direction self cid = (0, 0)))"
proof -
  define YH where "YH = ((0 < n \<and> float_less (Finite t) (to_binary64 (y / n))) \<or> (n = 0 \<and> 0 < y))"
  define NH where "NH = ((0 < y \<and> float_less (Finite t) (to_binary64 (n / y))) \<or> (y = 0 \<and> 0 < n))"
  define GN where "GN = float_less (qg_get_skew_ratio g y n) (to_binary64 (1 / t))"
  have t0: "0 < t" using assms(3) by simp
  have t1: "1 < skew_threshold self" "1 < qg_skew_threshold g" using assms by simp_all
  have h: "is_yes_heavy self cid = YH" "is_no_heavy self cid = NH"
    using tracker_heavy [OF assms(8,9,10,1,2) t1(1)] by (simp_all add: assms(6) YH_def NH_def)
  have ye: "t * n < y" if YH
    using heavy_exact [OF assms(1,2) t0 assms(5)] that by (simp add: YH_def)
  have ne: "t * y < n" if NH
    using heavy_exact [OF assms(2,1) t0 assms(5)] that by (simp add: NH_def)
  have excl: "\<not> (YH \<and> NH)" using ye ne not_both_heavy [OF assms(1,2,3)] by blast
  have a: "get_adjustment_direction self cid =
      (if YH then (- 1, 1) else if NH then (1, - 1) else (0, 0))"
    by (simp add: get_adjustment_direction_def h)
  have g: "get_skew_adjustments g (qg_get_skew_ratio g y n) =
     Inr (if YH then (- 1, 1) else if GN then (1, - 1) else (0, 0))"
    using generator_cases [OF assms(1,2) t1(2)] by (simp add: assms(7) YH_def GN_def)
  have same: "GN = NH" if "\<not> YH"
    and "y = 0 \<or> n = 0 \<or> n \<le> t * y \<or> t * (1 + 1 / 2 ^ 50) * y \<le> n"
  proof -
    note ny = that(1) and dj = that(2)
    consider (zz) "y = 0" "n = 0" | (zn) "y = 0" "0 < n" | (yz) "0 < y" "n = 0"
      | (le) "0 < y" "0 < n" "n \<le> t * y"
      | (far) "0 < y" "0 < n" "t * (1 + 1 / 2 ^ 50) * y \<le> n"
      using dj assms(1,2) by fastforce
    then show ?thesis
    proof cases
      case zz
      then show ?thesis
        using inverse_rounds_below_one [OF assms(3)]
        by (simp add: GN_def NH_def qg_get_skew_ratio_def)
    next
      case zn
      then show ?thesis
        using inverse_rounds_positive [OF assms(3,4)]
        by (simp add: GN_def NH_def qg_get_skew_ratio_def to_binary64_def)
    next
      case yz
      with ny show ?thesis by (simp add: YH_def)
    next
      case le
      have "\<not> NH" using ne le(3) by fastforce
      moreover have "\<not> GN"
      proof -
        have "1 / t \<le> y / n" using le t0 by (simp add: field_simps)
        moreover have "0 < 1 / t" using t0 by simp
        ultimately have "\<not> float_less (to_binary64 (y / n)) (to_binary64 (1 / t))"
          by (intro to_binary64_mono)
        then show ?thesis using le by (simp add: GN_def qg_get_skew_ratio_def)
      qed
      ultimately show ?thesis by simp
    next
      case far
      have NH using heavy_margin [OF assms(3,1) far(2,3)] by (simp add: NH_def)
      moreover have GN
      proof -
        have "y / n * (t * (1 + 1 / 2 ^ 50)) \<le> 1"
          using far by (simp add: field_simps)
        moreover have "0 < y / n" using far by simp
        ultimately have "float_less (to_binary64 (y / n)) (to_binary64 (1 / t))"
          by (intro below_inverse [OF assms(3,4)])
        then show ?thesis using far by (simp add: GN_def qg_get_skew_ratio_def)
      qed
      ultimately show ?thesis by simp
    qed
  qed
  have noty: "\<not> YH" if "t * y < n"
  proof
    assume YH
    then have "t * n < y" by (rule ye)
    with that show False using not_both_heavy [OF assms(1,2,3)] by blast
  qed
  let ?pair = "if YH then (- 1, 1) else if GN then (1, - 1) else (0, 0 :: int)"
  have "?pair = (- 1, 1) \<longleftrightarrow> get_adjustment_direction self cid = (- 1, 1)"
    by (auto simp add: a)
  moreover have "?pair = get_adjustment_direction self cid"
    if "y = 0 \<or> n = 0 \<or> n \<le> t * y \<or> t * (1 + 1 / 2 ^ 50) * y \<le> n"
    using same [OF _ that] by (cases YH) (simp_all add: a)
  moreover have "(?pair = (1, - 1) \<or> ?pair = (0, 0))
      \<and> (get_adjustment_direction self cid = (1, - 1)
           \<or> get_adjustment_direction self cid = (0, 0))" if "t * y < n"
    using noty [OF that] by (simp add: a)
  ultimately show ?thesis using g by blast
qed


subsection \<open>The boundary case: 3 against 3.6 at threshold 1.2\<close>

lemmas binary64_eval = to_binary64_def round_pos_def ulp_def binade_def py_round_def Let_def
  compute_bitlen power_int_minus_divide

lemma d12_is_binary64: "to_binary64 d12 = Finite d12"
  by (simp add: binary64_eval d12_def)

lemma rounded_quotients:
  "to_binary64 (3 / d36) = Finite (3752999689475413 / 4503599627370496)"
  "to_binary64 (d36 / 3) = Finite d12"
  "to_binary64 (1 / d12) = Finite (7505999378950827 / 9007199254740992)"
  by (simp_all add: binary64_eval d12_def d36_def)

lemma sample_signs: "0 < d12" "0 < d36" "d12 \<noteq> 0" "d36 \<noteq> 0" "1 < d12" "d12 \<le> 2 ^ 1022"
  by (simp_all add: d12_def d36_def)


lemma sample_generator:
  "qg_skew_threshold (example_generator d12) = d12"
  "float_div 1 d12 = Inr (Finite (7505999378950827 / 9007199254740992))"
  "qg_get_skew_ratio (example_generator d12) 3 d36
     = Finite (3752999689475413 / 4503599627370496)"
  "qg_get_skew_ratio (example_generator d12) d36 3 = Finite d12"
  by (simp_all add: example_generator_def QuoteGenerator_init_def float_div_def
      qg_get_skew_ratio_def sample_signs rounded_quotients)

lemma sample_tracker:
  "skew_threshold (example_tracker d12) = d12"
  "positions (example_tracker d12) ''m4'' = Some (mk_position ''m4'' 3 d36)"
  "skew_ratio (mk_position ''m4'' 3 d36) = Finite (3752999689475413 / 4503599627370496)"
  "inverse_skew_ratio (mk_position ''m4'' 3 d36) = Finite d12"
  by (simp_all add: example_tracker_def mk_position_def skew_ratio_def inverse_skew_ratio_def
      sample_signs rounded_quotients)


text \<open>
  Claim C10 as stated fails at the same input: for 3 YES against 3.6 NO at threshold 1.2
  the tracker answers \<open>(0, 0)\<close>, since \<open>3.6 / 3\<close> rounds to the threshold and not above
  it, and the generator answers \<open>(+1, -1)\<close>.
\<close>

theorem skew_rules_differ_counterexample:
  "positions (example_tracker d12) ''m4'' = Some (mk_position ''m4'' 3 d36)
   \<and> get_adjustment_direction (example_tracker d12) ''m4'' = (0, 0)
   \<and> get_skew_adjustments (example_generator d12)
      (qg_get_skew_ratio (example_generator d12) 3 d36) = Inr (1, - 1)"
  by (simp only: get_skew_adjustments_def get_adjustment_direction_def is_yes_heavy_def
      is_no_heavy_def get_skew_ratio_def sample_generator sample_tracker option.case)
    (simp add: d12_def)



theorem skew_rules_agree_witness:
  "get_skew_adjustments (example_generator d12)
      (qg_get_skew_ratio (example_generator d12) 10 15)
    = Inr (get_adjustment_direction (example_tracker d12) ''m2'')
   \<and> get_skew_adjustments (example_generator d12)
      (qg_get_skew_ratio (example_generator d12) 0 1)
    = Inr (get_adjustment_direction (example_tracker d12) ''m3'')
   \<and> get_adjustment_direction (example_tracker d12) ''m3'' = (1, - 1)"
proof -
  note t = sample_signs(5,6)
  have c: "skew_threshold (example_tracker d12) = d12"
    "qg_skew_threshold (example_generator d12) = d12"
    by (simp_all add: example_tracker_def example_generator_def QuoteGenerator_init_def)
  have m2: "positions (example_tracker d12) ''m2'' = Some (mk_position ''m2'' 10 15)"
    "quantity (yes_position (mk_position ''m2'' 10 15)) = 10"
    "quantity (no_position (mk_position ''m2'' 10 15)) = 15"
    and m3: "positions (example_tracker d12) ''m3'' = Some (mk_position ''m3'' 0 1)"
    "quantity (yes_position (mk_position ''m3'' 0 1)) = 0"
    "quantity (no_position (mk_position ''m3'' 0 1)) = 1"
    by (simp_all add: example_tracker_def mk_position_def)
  have far: "d12 * (1 + 1 / 2 ^ 50) * 10 \<le> 15" by (simp add: d12_def)
  have p: "(0::real) \<le> 10" "(0::real) \<le> 15" "(0::real) \<le> 0" "(0::real) \<le> 1" by simp_all
  have a: "get_skew_adjustments (example_generator d12)
      (qg_get_skew_ratio (example_generator d12) 10 15)
    = Inr (get_adjustment_direction (example_tracker d12) ''m2'')"
    using skew_rules_agree [OF p(1,2) t d12_is_binary64 c m2]
  proof (elim exE conjE)
    fix pair
    assume 1: "get_skew_adjustments (example_generator d12)
        (qg_get_skew_ratio (example_generator d12) 10 15) = Inr pair"
      and 2: "(10::real) = 0 \<or> (15::real) = 0 \<or> 15 \<le> d12 * 10
          \<or> d12 * (1 + 1 / 2 ^ 50) * 10 \<le> 15 \<longrightarrow>
        pair = get_adjustment_direction (example_tracker d12) ''m2''"
    from far have "(10::real) = 0 \<or> (15::real) = 0 \<or> 15 \<le> d12 * 10
          \<or> d12 * (1 + 1 / 2 ^ 50) * 10 \<le> 15"
      by (intro disjI2)
    with 2 have "pair = get_adjustment_direction (example_tracker d12) ''m2''" by (rule mp)
    with 1 show ?thesis by (simp only:)
  qed
  have b: "get_skew_adjustments (example_generator d12)
      (qg_get_skew_ratio (example_generator d12) 0 1)
    = Inr (get_adjustment_direction (example_tracker d12) ''m3'')"
    using skew_rules_agree [OF p(3,4) t d12_is_binary64 c m3]
  proof (elim exE conjE)
    fix pair
    assume 1: "get_skew_adjustments (example_generator d12)
        (qg_get_skew_ratio (example_generator d12) 0 1) = Inr pair"
      and 2: "(0::real) = 0 \<or> (1::real) = 0 \<or> 1 \<le> d12 * 0
          \<or> d12 * (1 + 1 / 2 ^ 50) * 0 \<le> 1 \<longrightarrow>
        pair = get_adjustment_direction (example_tracker d12) ''m3''"
    have "(0::real) = 0 \<or> (1::real) = 0 \<or> 1 \<le> d12 * 0
          \<or> d12 * (1 + 1 / 2 ^ 50) * 0 \<le> 1"
      by (rule disjI1) (rule refl)
    with 2 have "pair = get_adjustment_direction (example_tracker d12) ''m3''" by (rule mp)
    with 1 show ?thesis by (simp only:)
  qed
  have v: "get_adjustment_direction (example_tracker d12) ''m3'' = (1, - 1)"
    by (simp add: get_adjustment_direction_def is_yes_heavy_def is_no_heavy_def
        get_skew_ratio_def skew_ratio_def inverse_skew_ratio_def example_tracker_def
        mk_position_def to_binary64_def d12_def)
  from a b v show ?thesis by simp
qed

section \<open>Properties of the inventory tracker\<close>

text \<open>
  Claim C9.  \<^verbatim>\<open>InventoryTracker.record_fill(condition_id, fill)\<close> leaves the tracker as
  it is when the condition id has no position or the fill is not a BUY.  Otherwise the
  position of that market changes on the side named by \<^verbatim>\<open>fill.outcome\<close> only: its
  quantity grows by \<^verbatim>\<open>fill.size\<close>, its total cost by \<^verbatim>\<open>fill.size * fill.price\<close>,
  its token id and outcome stay; the other side of the market, every other market and
  the threshold are unchanged.
\<close>

theorem record_fill_effect:
  "(positions self cid = None \<or> fill_side fill \<noteq> BUY \<longrightarrow> record_fill self cid fill = self)
   \<and> (\<forall>mp. positions self cid = Some mp \<and> fill_side fill = BUY \<longrightarrow>
         (\<exists>mp'. positions (record_fill self cid fill) cid = Some mp'
            \<and> condition_id mp' = condition_id mp
            \<and> (fill_outcome fill = YES \<longrightarrow>
                  quantity (yes_position mp') = quantity (yes_position mp) + fill_size fill
                  \<and> total_cost (yes_position mp')
                      = total_cost (yes_position mp) + fill_size fill * fill_price fill
                  \<and> token_id (yes_position mp') = token_id (yes_position mp)
                  \<and> outcome (yes_position mp') = outcome (yes_position mp)
                  \<and> no_position mp' = no_position mp)
            \<and> (fill_outcome fill = NO \<longrightarrow>
                  quantity (no_position mp') = quantity (no_position mp) + fill_size fill
                  \<and> total_cost (no_position mp')
                      = total_cost (no_position mp) + fill_size fill * fill_price fill
                  \<and> token_id (no_position mp') = token_id (no_position mp)
                  \<and> outcome (no_position mp') = outcome (no_position mp)
                  \<and> yes_position mp' = yes_position mp)))
   \<and> (\<forall>other. other \<noteq> cid \<longrightarrow>
         positions (record_fill self cid fill) other = positions self other)
   \<and> skew_threshold (record_fill self cid fill) = skew_threshold self"
proof (intro conjI allI impI)
  assume "positions self cid = None \<or> fill_side fill \<noteq> BUY"
  then show "record_fill self cid fill = self"
    by (auto simp add: record_fill_def split: option.splits)
next
  fix mp
  assume h: "positions self cid = Some mp \<and> fill_side fill = BUY"
  show "\<exists>mp'. positions (record_fill self cid fill) cid = Some mp'
            \<and> condition_id mp' = condition_id mp
            \<and> (fill_outcome fill = YES \<longrightarrow>
                  quantity (yes_position mp') = quantity (yes_position mp) + fill_size fill
                  \<and> total_cost (yes_position mp')
                      = total_cost (yes_position mp) + fill_size fill * fill_price fill
                  \<and> token_id (yes_position mp') = token_id (yes_position mp)
                  \<and> outcome (yes_position mp') = outcome (yes_position mp)
                  \<and> no_position mp' = no_position mp)
            \<and> (fill_outcome fill = NO \<longrightarrow>
                  quantity (no_position mp') = quantity (no_position mp) + fill_size fill
                  \<and> total_cost (no_position mp')
                      = total_cost (no_position mp) + fill_size fill * fill_price fill
                  \<and> token_id (no_position mp') = token_id (no_position mp)
                  \<and> outcome (no_position mp') = outcome (no_position mp)
                  \<and> yes_position mp' = yes_position mp)"
  proof (cases "fill_outcome fill")
    case YES
    with h show ?thesis by (simp add: record_fill_def add_fill_def)
  next
    case NO
    with h show ?thesis by (simp add: record_fill_def add_fill_def)
  qed
next
  fix other :: string
  assume "other \<noteq> cid"
  then show "positions (record_fill self cid fill) other = positions self other"
    by (simp add: record_fill_def split: option.splits)
next
  show "skew_threshold (record_fill self cid fill) = skew_threshold self"
    by (simp add: record_fill_def split: option.splits)
qed

theorem record_fill_effect_witness:
  "record_fill (example_tracker (12 / 10)) ''m1'' (example_fill YES SELL)
      = example_tracker (12 / 10)
   \<and> record_fill (example_tracker (12 / 10)) ''zz'' (example_fill YES BUY)
      = example_tracker (12 / 10)
   \<and> (\<exists>mp'. positions (record_fill (example_tracker (12 / 10)) ''m1'' (example_fill YES BUY)) ''m1''
          = Some mp'
        \<and> quantity (yes_position mp') = 25 \<and> total_cost (yes_position mp') = 4
        \<and> no_position mp' = no_position (mk_position ''m1'' 15 10))
   \<and> (\<exists>mp'. positions (record_fill (example_tracker (12 / 10)) ''m1'' (example_fill NO BUY)) ''m1''
          = Some mp'
        \<and> quantity (no_position mp') = 20 \<and> total_cost (no_position mp') = 4
        \<and> yes_position mp' = yes_position (mk_position ''m1'' 15 10))
   \<and> positions (record_fill (example_tracker (12 / 10)) ''m1'' (example_fill YES BUY)) ''m2''
        = Some (mk_position ''m2'' 10 15)"
proof -
  let ?T = "example_tracker (12 / 10)"
  have p1: "positions ?T ''m1'' = Some (mk_position ''m1'' 15 10)"
    and p2: "positions ?T ''m2'' = Some (mk_position ''m2'' 10 15)"
    and pz: "positions ?T ''zz'' = None"
    by (simp_all add: example_tracker_def)
  have a: "record_fill ?T ''m1'' (example_fill YES SELL) = ?T"
    using record_fill_effect [of ?T "''m1''" "example_fill YES SELL"]
    by (simp add: example_fill_def)
  have b: "record_fill ?T ''zz'' (example_fill YES BUY) = ?T"
    using record_fill_effect [of ?T "''zz''" "example_fill YES BUY"] pz
    by simp
  have c: "\<exists>mp'. positions (record_fill ?T ''m1'' (example_fill YES BUY)) ''m1'' = Some mp'
        \<and> quantity (yes_position mp') = 25 \<and> total_cost (yes_position mp') = 4
        \<and> no_position mp' = no_position (mk_position ''m1'' 15 10)"
    using record_fill_effect [of ?T "''m1''" "example_fill YES BUY"] p1
    by (auto simp add: example_fill_def mk_position_def)
  have d: "positions (record_fill ?T ''m1'' (example_fill YES BUY)) ''m2''
        = Some (mk_position ''m2'' 10 15)"
    using record_fill_effect [of ?T "''m1''" "example_fill YES BUY"] p2
    by simp
  have e: "\<exists>mp'. positions (record_fill ?T ''m1'' (example_fill NO BUY)) ''m1'' = Some mp'
        \<and> quantity (no_position mp') = 20 \<and> total_cost (no_position mp') = 4
        \<and> yes_position mp' = yes_position (mk_position ''m1'' 15 10)"
    using record_fill_effect [of ?T "''m1''" "example_fill NO BUY"] p1
    by (auto simp add: example_fill_def mk_position_def)
  from a b c d e show ?thesis by blast
qed

section \<open>Properties of the order-book maintainer\<close>

lemma update_existing_None:
  "update_existing levels q s = None \<longleftrightarrow> (\<forall>l \<in> set levels. \<not> \<bar>level_price l - q\<bar> < 1 / 10000)"
  by (induction levels) auto

lemma update_existing_first:
  assumes "\<forall>x \<in> set pre. \<not> \<bar>level_price x - q\<bar> < 1 / 10000"
    and "\<bar>level_price l - q\<bar> < 1 / 10000"
  shows "update_existing (pre @ l # post) q s =
     Some (if s \<le> 0 then pre @ post else pre @ l\<lparr>level_size := s\<rparr> # post)"
  using assms by (induction pre) auto

lemma sorted_neg_key:
  "sorted (map (\<lambda>x. - f x) xs) \<longleftrightarrow> sorted (rev (map (f :: 'a \<Rightarrow> real) xs))"
  by (simp add: sorted_wrt_rev sorted_wrt_map)

lemma py_round_of_int: "py_round (of_int i) = i"
  by (simp add: py_round_def)

lemma py_round_ndigits_grid: "py_round_ndigits (of_int i / 10 ^ n) n = of_int i / 10 ^ n"
  by (simp add: py_round_ndigits_def py_round_of_int)

text \<open>
  Claim C6 as stated says that the level \<open>(q, s)\<close> is inserted.  The constructor rounds
  price and size to four decimals, so a change with the positive size 0.00004 at the new
  price 0.43 inserts the level \<open>(0.43, 0)\<close>, of size zero, at the top of the bids.
\<close>

theorem update_level_rounds_counterexample:
  "update_level [example_level (42 / 100) 5] (43 / 100) (4 / 100000) False
     = [example_level (43 / 100) 0, example_level (42 / 100) 5]
   \<and> (0::real) < 4 / 100000
   \<and> example_level (43 / 100) 0 \<noteq> example_level (43 / 100) (4 / 100000)"
  by (simp add: update_level_def OrderBookLevel_init_def py_round_ndigits_def py_round_def
      example_level_def Let_def)

text \<open>
  Claim C6, amended.  A \<^verbatim>\<open>price_change\<close> with price \<open>q\<close> and size \<open>s\<close> on one side of a book.
  If a level lies within \<open>10\<^sup>-\<^sup>4\<close> of \<open>q\<close>, the first such level is the one the loop
  stops at: with \<open>s \<le> 0\<close> exactly that level is removed, with \<open>s > 0\<close> only its size is
  overwritten by \<open>s\<close>.  If no level lies within the tolerance and \<open>s > 0\<close>, the level
  \<^verbatim>\<open>OrderBookLevel(q, s)\<close> is added to the levels already there and the side is sorted
  afterwards, asks ascending and bids descending; the constructor rounds to four
  decimals, so the level is \<open>(q, s)\<close> itself whenever \<open>q\<close> and \<open>s\<close> have at most four
  decimals.  If no level lies within the tolerance and \<open>s \<le> 0\<close>, the side is unchanged.
  A \<^verbatim>\<open>"BUY"\<close> change goes to the bids (descending), a \<^verbatim>\<open>"SELL"\<close> change to the asks
  (ascending).
\<close>

theorem update_level_cases:
  "(\<forall>pre l post.
       levels = pre @ l # post
       \<and> (\<forall>x \<in> set pre. \<not> \<bar>level_price x - q\<bar> < 1 / 10000)
       \<and> \<bar>level_price l - q\<bar> < 1 / 10000 \<longrightarrow>
       update_level levels q s ascending =
         (if s \<le> 0 then pre @ post else pre @ l\<lparr>level_size := s\<rparr> # post))
   \<and> ((\<forall>x \<in> set levels. \<not> \<bar>level_price x - q\<bar> < 1 / 10000) \<and> 0 < s \<longrightarrow>
        mset (update_level levels q s ascending) = mset levels + {#OrderBookLevel_init q s#}
        \<and> (ascending \<longrightarrow> sorted (map level_price (update_level levels q s ascending)))
        \<and> (\<not> ascending \<longrightarrow> sorted (rev (map level_price (update_level levels q s ascending)))))
   \<and> ((\<forall>x \<in> set levels. \<not> \<bar>level_price x - q\<bar> < 1 / 10000) \<and> s \<le> 0 \<longrightarrow>
        update_level levels q s ascending = levels)
   \<and> ((\<exists>i j. q = of_int i / 10 ^ 4 \<and> s = of_int j / 10 ^ 4) \<longrightarrow>
        OrderBookLevel_init q s = \<lparr>level_price = q, level_size = s\<rparr>)
   \<and> apply_change book \<lparr>change_side = ''BUY'', change_price = q, change_size = s\<rparr>
        = book\<lparr>bids := update_level (bids book) q s False\<rparr>
   \<and> apply_change book \<lparr>change_side = ''SELL'', change_price = q, change_size = s\<rparr>
        = book\<lparr>asks := update_level (asks book) q s True\<rparr>"
proof (intro conjI allI impI)
  fix pre l post
  assume "levels = pre @ l # post
       \<and> (\<forall>x \<in> set pre. \<not> \<bar>level_price x - q\<bar> < 1 / 10000)
       \<and> \<bar>level_price l - q\<bar> < 1 / 10000"
  then show "update_level levels q s ascending =
         (if s \<le> 0 then pre @ post else pre @ l\<lparr>level_size := s\<rparr> # post)"
    by (simp add: update_level_def update_existing_first)
next
  assume h: "(\<forall>x \<in> set levels. \<not> \<bar>level_price x - q\<bar> < 1 / 10000) \<and> 0 < s"
  then have n: "update_existing levels q s = None" by (simp add: update_existing_None)
  from n h show "mset (update_level levels q s ascending)
      = mset levels + {#OrderBookLevel_init q s#}"
    by (simp add: update_level_def Let_def)
  show "sorted (map level_price (update_level levels q s ascending))" if ascending
    using n h that by (simp add: update_level_def Let_def)
  show "sorted (rev (map level_price (update_level levels q s ascending)))" if "\<not> ascending"
    using n h that sorted_sort_key [of "\<lambda>x. - level_price x" "levels @ [OrderBookLevel_init q s]"]
    by (simp add: update_level_def Let_def sorted_neg_key del: sorted_sort_key)
next
  assume h: "(\<forall>x \<in> set levels. \<not> \<bar>level_price x - q\<bar> < 1 / 10000) \<and> s \<le> 0"
  then have "update_existing levels q s = None" by (simp add: update_existing_None)
  with h show "update_level levels q s ascending = levels"
    by (simp add: update_level_def)
next
  assume "\<exists>i j. q = of_int i / 10 ^ 4 \<and> s = of_int j / 10 ^ 4"
  then obtain i j where "q = of_int i / 10 ^ 4" and "s = of_int j / 10 ^ 4" by blast
  then show "OrderBookLevel_init q s = \<lparr>level_price = q, level_size = s\<rparr>"
    unfolding OrderBookLevel_init_def by (simp only: py_round_ndigits_grid)
next
  show "apply_change book \<lparr>change_side = ''BUY'', change_price = q, change_size = s\<rparr>
        = book\<lparr>bids := update_level (bids book) q s False\<rparr>"
    by (simp add: apply_change_def)
  show "apply_change book \<lparr>change_side = ''SELL'', change_price = q, change_size = s\<rparr>
        = book\<lparr>asks := update_level (asks book) q s True\<rparr>"
    by (simp add: apply_change_def)
qed



theorem update_level_cases_witness:
  "update_level [example_level (42 / 100) 5, example_level (41 / 100) 3] (41 / 100) 0 False
      = [example_level (42 / 100) 5]
   \<and> update_level [example_level (42 / 100) 5, example_level (41 / 100) 3] (41 / 100) 7 False
      = [example_level (42 / 100) 5, example_level (41 / 100) 7]
   \<and> mset (update_level [example_level (42 / 100) 5] (43 / 100) 2 False)
      = {#example_level (42 / 100) 5, example_level (43 / 100) 2#}
   \<and> sorted (rev (map level_price (update_level [example_level (42 / 100) 5] (43 / 100) 2 False)))
   \<and> update_level [example_level (42 / 100) 5] (43 / 100) 0 False = [example_level (42 / 100) 5]
   \<and> mset (update_level [example_level (42 / 100) 5] (43 / 100) 2 True)
      = {#example_level (42 / 100) 5, example_level (43 / 100) 2#}
   \<and> sorted (map level_price (update_level [example_level (42 / 100) 5] (43 / 100) 2 True))"
proof -
  let ?a = "example_level (42 / 100) 5" and ?b = "example_level (41 / 100) 3"
  have found: "[?a, ?b] = [?a] @ ?b # []
       \<and> (\<forall>x \<in> set [?a]. \<not> \<bar>level_price x - 41 / 100\<bar> < 1 / 10000)
       \<and> \<bar>level_price ?b - 41 / 100\<bar> < 1 / 10000"
    by (simp add: example_level_def)
  have missing: "\<forall>x \<in> set [?a]. \<not> \<bar>level_price x - 43 / 100\<bar> < 1 / 10000"
    by (simp add: example_level_def)
  have grid: "\<exists>i j. (43 / 100 :: real) = of_int i / 10 ^ 4 \<and> (2 :: real) = of_int j / 10 ^ 4"
    by (intro exI [of _ 4300] exI [of _ 20000]) simp
  note c = update_level_cases [where book = "example_book []"]
  have r1: "update_level [?a, ?b] (41 / 100) 0 False = [?a]"
    using c [of "[?a, ?b]" "41 / 100" 0 False, THEN conjunct1, rule_format, OF found]
    by simp
  have r2: "update_level [?a, ?b] (41 / 100) 7 False = [?a, example_level (41 / 100) 7]"
    using c [of "[?a, ?b]" "41 / 100" 7 False, THEN conjunct1, rule_format, OF found]
    by (simp add: example_level_def)
  have new: "OrderBookLevel_init (43 / 100) 2 = example_level (43 / 100) 2"
    using c [of "[?a]" "43 / 100" 2 False, THEN conjunct2, THEN conjunct2, THEN conjunct2,
        THEN conjunct1, rule_format, OF grid]
    by (simp add: example_level_def)
  have ins: "mset (update_level [?a] (43 / 100) 2 False)
        = mset [?a] + {#OrderBookLevel_init (43 / 100) 2#}
      \<and> (False \<longrightarrow> sorted (map level_price (update_level [?a] (43 / 100) 2 False)))
      \<and> (\<not> False \<longrightarrow> sorted (rev (map level_price (update_level [?a] (43 / 100) 2 False))))"
    using c [of "[?a]" "43 / 100" 2 False, THEN conjunct2, THEN conjunct1, rule_format]
      missing by simp
  have r3: "mset (update_level [?a] (43 / 100) 2 False) = {#?a, example_level (43 / 100) 2#}"
    using ins new by simp
  have r4: "sorted (rev (map level_price (update_level [?a] (43 / 100) 2 False)))"
    using ins by simp
  have r5: "update_level [?a] (43 / 100) 0 False = [?a]"
    using c [of "[?a]" "43 / 100" 0 False, THEN conjunct2, THEN conjunct2, THEN conjunct1,
        rule_format] missing by simp
  have asc: "mset (update_level [?a] (43 / 100) 2 True)
        = mset [?a] + {#OrderBookLevel_init (43 / 100) 2#}
      \<and> (True \<longrightarrow> sorted (map level_price (update_level [?a] (43 / 100) 2 True)))
      \<and> (\<not> True \<longrightarrow> sorted (rev (map level_price (update_level [?a] (43 / 100) 2 True))))"
    using c [of "[?a]" "43 / 100" 2 True, THEN conjunct2, THEN conjunct1, rule_format]
      missing by simp
  have r6: "mset (update_level [?a] (43 / 100) 2 True) = {#?a, example_level (43 / 100) 2#}"
    using asc new by simp
  have r7: "sorted (map level_price (update_level [?a] (43 / 100) 2 True))"
    using asc by simp
  from r1 r2 r3 r4 r5 r6 r7 show ?thesis by blast
qed

section \<open>Properties of the quote generator\<close>

text \<open>
  Claim C2 does not hold of the code.  When the snapped price exceeds the cap, line 120
  replaces it by \<^verbatim>\<open>round(max_price / self.tick_size) * self.tick_size\<close>, the tick
  nearest to the cap and not the tick below it.  With tick 0.01, best bid 0.42 and cap
  0.396 the snapped price 0.41 exceeds the cap, the replacement is \<open>round(39.6) \<cdot> 0.01 =
  0.40\<close>, and the quote is emitted at 0.40, above the cap; the floor would give 0.39.
\<close>

theorem generate_single_quote_exceeds_cap:
  "generate_single_quote (example_generator (12 / 10)) ''y'' YES
      (Some (example_book [example_level (42 / 100) 5])) 0 (396 / 1000)
     = Inr (Some \<lparr>q_token_id = ''y'', q_outcome = YES, q_side = BUY, q_price = 40 / 100,
                  q_size = 5, q_order_id = None\<rparr>)
   \<and> (396 / 1000 :: real) < 40 / 100
   \<and> of_int \<lfloor>(396 / 1000 :: real) / (1 / 100)\<rfloor> * (1 / 100 :: real) = 39 / 100"
  by (simp add: generate_single_quote_def round_to_tick_def py_div_def py_round_def
      py_round_ndigits_def best_bid_def example_book_def example_level_def
      example_generator_def QuoteGenerator_init_def Let_def)

text \<open>When the cap is on the tick grid the replacement is the cap (scenario S6 of the spec).\<close>

lemma generate_single_quote_scenario_S6:
  "generate_single_quote (example_generator (12 / 10)) ''y'' YES
      (Some (example_book [example_level (42 / 100) 5])) 0 (39 / 100)
     = Inr (Some \<lparr>q_token_id = ''y'', q_outcome = YES, q_side = BUY, q_price = 39 / 100,
                  q_size = 5, q_order_id = None\<rparr>)"
  by (simp add: generate_single_quote_def round_to_tick_def py_div_def py_round_def
      py_round_ndigits_def best_bid_def example_book_def example_level_def
      example_generator_def QuoteGenerator_init_def Let_def)

section \<open>Properties of the persistence layer\<close>

subsection \<open>ISO 8601 text of a datetime\<close>

lemma digit_val_digit_char:
  assumes "d < 10"
  shows "digit_val (digit_char d) = Some d"
proof -
  from assms have "d = 0 \<or> d = 1 \<or> d = 2 \<or> d = 3 \<or> d = 4 \<or> d = 5 \<or> d = 6
    \<or> d = 7 \<or> d = 8 \<or> d = 9" by arith
  then show ?thesis
    by (elim disjE) (simp_all add: digit_char_def digit_val_def Let_def)
qed

lemma length_zero_pad [simp]: "length (zero_pad w n) = w"
  by (induction w arbitrary: n) simp_all

lemma parse_digits_append:
  "parse_digits acc (xs @ ys) =
     (case parse_digits acc xs of None \<Rightarrow> None | Some a \<Rightarrow> parse_digits a ys)"
  by (induction xs arbitrary: acc) (simp_all split: option.splits)

lemma parse_digits_zero_pad:
  "n < 10 ^ w \<Longrightarrow> parse_digits acc (zero_pad w n) = Some (acc * 10 ^ w + n)"
proof (induction w arbitrary: n acc)
  case 0
  then show ?case by simp
next
  case (Suc w)
  from Suc.prems have "n div 10 < 10 ^ w"
    by (simp add: less_mult_imp_div_less mult.commute)
  then have "parse_digits acc (zero_pad w (n div 10)) = Some (acc * 10 ^ w + n div 10)"
    by (rule Suc.IH)
  moreover have "digit_val (digit_char (n mod 10)) = Some (n mod 10)"
    by (rule digit_val_digit_char) simp
  ultimately show ?case
    by (simp add: parse_digits_append algebra_simps)
qed

lemma parse_zero_pad: "n < 10 ^ w \<Longrightarrow> parse_digits 0 (zero_pad w n) = Some n"
  by (simp add: parse_digits_zero_pad)

lemma zero_pad_2: "zero_pad 2 n = [digit_char (n div 10 mod 10), digit_char (n mod 10)]"
proof -
  have "zero_pad (Suc (Suc 0)) n = [digit_char (n div 10 mod 10), digit_char (n mod 10)]"
    by simp
  then show ?thesis by (simp only: numeral_2_eq_2)
qed

lemma zero_pad_add: "zero_pad (a + b) n = zero_pad a (n div 10 ^ b) @ zero_pad b n"
  by (induction b arbitrary: n) (simp_all add: div_mult2_eq)

lemma zero_pad_4: "zero_pad 4 n = zero_pad 2 (n div 100) @ zero_pad 2 n"
  using zero_pad_add [of 2 2 n] by simp

lemma zero_pad_6:
  "zero_pad 6 n = zero_pad 2 (n div 100 div 100) @ zero_pad 2 (n div 100) @ zero_pad 2 n"
  using zero_pad_add [of 4 2 n] zero_pad_4 [of "n div 100"] by simp

lemma fromisoformat_isoformat:
  assumes "valid_datetime d"
  shows "fromisoformat (isoformat d) = Inr d"
proof -
  define Y where "Y = zero_pad 4 (year d)"
  define M where "M = zero_pad 2 (month d)"
  define D where "D = zero_pad 2 (day d)"
  define H where "H = zero_pad 2 (hour d)"
  define MI where "MI = zero_pad 2 (minute d)"
  define S where "S = zero_pad 2 (second d)"
  define U where "U = zero_pad 6 (microsecond d)"
  have len: "length Y = 4" "length M = 2" "length D = 2" "length H = 2" "length MI = 2"
    "length S = 2" "length U = 6"
    by (simp_all add: Y_def M_def D_def H_def MI_def S_def U_def)
  have bounds: "year d < 10 ^ 4" "month d < 10 ^ 2" "day d < 10 ^ 2" "hour d < 10 ^ 2"
    "minute d < 10 ^ 2" "second d < 10 ^ 2" "microsecond d < 10 ^ 6"
    using assms by (auto simp add: valid_datetime_def days_in_month_def split: if_splits)
  have p: "parse_digits 0 Y = Some (year d)" "parse_digits 0 M = Some (month d)"
    "parse_digits 0 D = Some (day d)" "parse_digits 0 H = Some (hour d)"
    "parse_digits 0 MI = Some (minute d)" "parse_digits 0 S = Some (second d)"
    "parse_digits 0 U = Some (microsecond d)"
    unfolding Y_def M_def D_def H_def MI_def S_def U_def
    using bounds by (simp_all only: parse_zero_pad)
  define tail where "tail = (if microsecond d = 0 then [] else CHR ''.'' # U)"
  have iso: "isoformat d = Y @ CHR ''-'' # M @ CHR ''-'' # D @ CHR ''T'' # H @ CHR '':'' # MI
      @ CHR '':'' # S @ tail"
    by (simp add: isoformat_def Y_def M_def D_def H_def MI_def S_def U_def tail_def)
  have ltail: "length tail = (if microsecond d = 0 then 0 else 7)"
    by (simp add: tail_def len)
  have l: "length (isoformat d) = (if microsecond d = 0 then 19 else 26)"
    unfolding iso by (simp add: len ltail)
  have n4: "isoformat d ! 4 = CHR ''-''" and n7: "isoformat d ! 7 = CHR ''-''"
    and n13: "isoformat d ! 13 = CHR '':''" and n16: "isoformat d ! 16 = CHR '':''"
    unfolding iso by (simp_all add: nth_append len nth_Cons')
  have n19: "isoformat d ! 19 = CHR ''.''" if "microsecond d \<noteq> 0"
    unfolding iso using that by (simp add: nth_append len nth_Cons' tail_def)
  have t1: "take 4 (isoformat d) = Y" unfolding iso by (simp add: len)
  have t2: "take 2 (drop 5 (isoformat d)) = M" unfolding iso by (simp add: len)
  have t3: "take 2 (drop 8 (isoformat d)) = D" unfolding iso by (simp add: len)
  have t4: "take 2 (drop 11 (isoformat d)) = H" unfolding iso by (simp add: len)
  have t5: "take 2 (drop 14 (isoformat d)) = MI" unfolding iso by (simp add: len)
  have t6: "take 2 (drop 17 (isoformat d)) = S" unfolding iso by (simp add: len)
  have t7: "drop 20 (isoformat d) = U" if "microsecond d \<noteq> 0"
    unfolding iso using that by (simp add: len tail_def)
  have rec: "\<lparr>year = year d, month = month d, day = day d, hour = hour d,
      minute = minute d, second = second d, microsecond = 0\<rparr> = d" if "microsecond d = 0"
    using that by (cases d) simp
  have rec': "\<lparr>year = year d, month = month d, day = day d, hour = hour d,
      minute = minute d, second = second d, microsecond = microsecond d\<rparr> = d"
    by (cases d) simp
  show ?thesis
  proof (cases "microsecond d = 0")
    case True
    then show ?thesis
      unfolding fromisoformat_def
      using assms by (simp add: l n4 n7 n13 n16 t1 t2 t3 t4 t5 t6 p rec [OF True] Let_def)
  next
    case False
    then show ?thesis
      unfolding fromisoformat_def
      using assms by (simp add: l n4 n7 n13 n16 n19 t1 t2 t3 t4 t5 t6 t7 p rec' Let_def)
  qed
qed


subsection \<open>Dictionaries of positions, fills and states\<close>

lemma bind_err_simps:
  "bind_err (Inr v) f = f v"
  "bind_err (Inl e) f = Inl e"
  by (simp_all add: bind_err_def)

lemma Outcome_roundtrip: "Outcome_of_value (PStr (Outcome_value oc)) = Inr oc"
  by (cases oc) (simp_all add: Outcome_of_value_def)

lemma Side_roundtrip: "Side_of_value (PStr (Side_value sd)) = Inr sd"
  by (cases sd) (simp_all add: Side_of_value_def)

lemma Position_roundtrip: "Position_from_dict (Position_to_dict p) = Inr p"
  by (simp add: Position_from_dict_def Position_to_dict_def getitem_def bind_err_def
      as_str_def as_float_def Outcome_roundtrip)

lemma MarketPosition_roundtrip: "MarketPosition_from_dict (MarketPosition_to_dict mp) = Inr mp"
proof -
  have y: "getitem (MarketPosition_to_dict mp) ''yes_position''
      = Inr (Position_to_dict (yes_position mp))"
    and n: "getitem (MarketPosition_to_dict mp) ''no_position''
      = Inr (Position_to_dict (no_position mp))"
    and c: "getitem (MarketPosition_to_dict mp) ''condition_id'' = Inr (PStr (condition_id mp))"
    by (simp_all add: MarketPosition_to_dict_def getitem_def)
  show ?thesis
    unfolding MarketPosition_from_dict_def y n c
    by (simp add: bind_err_def as_str_def Position_roundtrip)
qed

lemma Fill_roundtrip:
  assumes "valid_datetime (fill_timestamp f)"
  shows "Fill_from_dict (Fill_to_dict f) = Inr f"
proof -
  have g: "getitem (Fill_to_dict f) ''order_id'' = Inr (PStr (fill_order_id f))"
    "getitem (Fill_to_dict f) ''token_id'' = Inr (PStr (fill_token_id f))"
    "getitem (Fill_to_dict f) ''outcome'' = Inr (PStr (Outcome_value (fill_outcome f)))"
    "getitem (Fill_to_dict f) ''side'' = Inr (PStr (Side_value (fill_side f)))"
    "getitem (Fill_to_dict f) ''price'' = Inr (PFloat (fill_price f))"
    "getitem (Fill_to_dict f) ''size'' = Inr (PFloat (fill_size f))"
    "getitem (Fill_to_dict f) ''timestamp'' = Inr (PStr (isoformat (fill_timestamp f)))"
    "get_default (Fill_to_dict f) ''maker'' (PBool True) = Inr (PBool (fill_maker f))"
    by (simp_all add: Fill_to_dict_def getitem_def get_default_def)
  show ?thesis
    unfolding Fill_from_dict_def g
    by (simp add: bind_err_def as_str_def as_float_def as_bool_def Outcome_roundtrip
        Side_roundtrip fromisoformat_value_def fromisoformat_isoformat [OF assms])
qed

lemma positions_roundtrip:
  "map_err (\<lambda>(k, v). bind_err (MarketPosition_from_dict v) (\<lambda>p. Inr (k, p)))
     (map (\<lambda>(k, v). (k, MarketPosition_to_dict v)) ps) = Inr ps"
  by (induction ps) (auto simp add: bind_err_def MarketPosition_roundtrip)

lemma fills_roundtrip:
  "list_all (\<lambda>f. valid_datetime (fill_timestamp f)) fs \<Longrightarrow>
     map_err Fill_from_dict (map Fill_to_dict fs) = Inr fs"
  by (induction fs) (auto simp add: bind_err_def Fill_roundtrip)

lemma list_all_last_1000: "list_all P xs \<Longrightarrow> list_all P (last_1000 xs)"
  unfolding last_1000_def list_all_iff by (auto dest: in_set_dropD)

text \<open>\<^verbatim>\<open>StateManager.record_fill\<close> keeps the list of fills within the cap.\<close>

lemma state_record_fill_cap:
  "length (fills s) \<le> 1000 \<Longrightarrow> length (fills (state_record_fill s f)) \<le> 1000"
  by (simp add: state_record_fill_def last_1000_def Let_def)

text \<open>
  Whatever the number of fills, reading back what \<^verbatim>\<open>to_dict\<close> wrote gives the state
  with its open orders dropped and its fills cut to the last 1000.
\<close>

lemma BotState_roundtrip_general:
  assumes "list_all (\<lambda>f. valid_datetime (fill_timestamp f)) (fills s)"
    and "valid_datetime (last_updated s)"
  shows "BotState_from_dict (BotState_to_dict s) now
     = Inr (s\<lparr>open_orders := [], fills := last_1000 (fills s)\<rparr>)"
proof -
  let ?d = "BotState_to_dict s"
  have g: "get_default ?d ''positions'' (PDict [])
        = Inr (PDict (map (\<lambda>(k, v). (k, MarketPosition_to_dict v)) (bs_positions s)))"
    "get_default ?d ''fills'' (PList []) = Inr (PList (map Fill_to_dict (last_1000 (fills s))))"
    "get_default ?d ''total_maker_volume'' (PFloat 0) = Inr (PFloat (total_maker_volume s))"
    "get_default ?d ''total_rebates_estimate'' (PFloat 0)
        = Inr (PFloat (total_rebates_estimate s))"
    by (simp_all add: BotState_to_dict_def get_default_def)
  have u: "(case ?d of
              PDict items \<Rightarrow>
                (case map_of items ''last_updated'' of
                   Some v \<Rightarrow> fromisoformat_value v
                 | None \<Rightarrow> Inr now)
            | _ \<Rightarrow> Inl TypeError) = Inr (last_updated s)"
    by (simp add: BotState_to_dict_def fromisoformat_value_def
        fromisoformat_isoformat [OF assms(2)])
  have f: "fills_from (PList (map Fill_to_dict (last_1000 (fills s))))
      = Inr (last_1000 (fills s))"
    by (simp add: fills_from_def fills_roundtrip list_all_last_1000 [OF assms(1)])
  have "BotState_from_dict ?d now
      = Inr \<lparr>bs_positions = bs_positions s, open_orders = [], fills = last_1000 (fills s),
             total_maker_volume = total_maker_volume s,
             total_rebates_estimate = total_rebates_estimate s,
             last_updated = last_updated s\<rparr>"
    unfolding BotState_from_dict_def g u
    by (simp add: bind_err_simps items_of_def positions_roundtrip f as_float_def)
  moreover have "\<lparr>bs_positions = bs_positions s, open_orders = [], fills = last_1000 (fills s),
             total_maker_volume = total_maker_volume s,
             total_rebates_estimate = total_rebates_estimate s,
             last_updated = last_updated s\<rparr> = s\<lparr>open_orders := [], fills := last_1000 (fills s)\<rparr>"
    by (cases s) simp
  ultimately show ?thesis by simp
qed

lemma BotState_from_dict_open_orders:
  "BotState_from_dict data now = Inr s' \<Longrightarrow> open_orders s' = []"
  unfolding BotState_from_dict_def bind_err_def
  by (auto split: sum.splits)

text \<open>
  Claim C4.  For every valid state \<open>s\<close>, \<^verbatim>\<open>BotState.from_dict(s.to_dict())\<close> returns a
  state that equals \<open>s\<close> in its positions (condition ids, token ids, outcomes,
  quantities, total costs), its fills (all fields, with the ISO 8601 timestamps and the
  maker flags), \<^verbatim>\<open>total_maker_volume\<close>, \<^verbatim>\<open>total_rebates_estimate\<close> and
  \<^verbatim>\<open>last_updated\<close>; it is \<open>s\<close> with \<^verbatim>\<open>open_orders\<close> emptied.
\<close>

theorem BotState_roundtrip:
  assumes "valid_state s"
  shows "\<exists>s'. BotState_from_dict (BotState_to_dict s) now = Inr s'
     \<and> bs_positions s' = bs_positions s
     \<and> fills s' = fills s
     \<and> total_maker_volume s' = total_maker_volume s
     \<and> total_rebates_estimate s' = total_rebates_estimate s
     \<and> last_updated s' = last_updated s
     \<and> s' = s\<lparr>open_orders := []\<rparr>"
proof -
  from assms have a: "list_all (\<lambda>f. valid_datetime (fill_timestamp f)) (fills s)"
    and b: "valid_datetime (last_updated s)" and c: "length (fills s) \<le> 1000"
    by (simp_all add: valid_state_def)
  from c have "last_1000 (fills s) = fills s" by (simp add: last_1000_def)
  with BotState_roundtrip_general [OF a b, of now] show ?thesis by simp
qed

text \<open>
  Claim C5, amended.  The \<^verbatim>\<open>"open_orders"\<close> entry that \<^verbatim>\<open>BotState.to_dict\<close> writes
  holds the order arguments of every open order of the state under its key; it is the
  empty object exactly when the state has no open orders.  \<^verbatim>\<open>BotState.from_dict\<close>
  never reads the entry: the state it returns has no open orders.
\<close>

theorem to_dict_open_orders:
  "getitem (BotState_to_dict s) ''open_orders''
      = Inr (PDict (map (\<lambda>(k, v). (k, to_order_args v)) (open_orders s)))
   \<and> (getitem (BotState_to_dict s) ''open_orders'' = Inr (PDict []) \<longleftrightarrow> open_orders s = [])
   \<and> (\<forall>s'. BotState_from_dict (BotState_to_dict s) now = Inr s' \<longrightarrow> open_orders s' = [])"
  by (auto simp add: BotState_to_dict_def getitem_def dest: BotState_from_dict_open_orders)


subsection \<open>The sample state\<close>

lemma isoformat_examples:
  "isoformat example_time = ''2024-02-29T23:59:58''"
  "isoformat (fill_timestamp (example_fill YES BUY)) = ''2024-01-02T03:04:05.000006''"
  "fromisoformat ''2024-02-29T23:59:58'' = Inr example_time"
  "fromisoformat ''2023-02-29T23:59:58'' = Inl ValueError"
  by (simp_all add: isoformat_def example_time_def example_fill_def zero_pad_2 zero_pad_4
      zero_pad_6 digit_char_def fromisoformat_def digit_val_def valid_datetime_def
      days_in_month_def is_leap_def Let_def)

lemma valid_example_state: "valid_state example_state"
  by (simp add: valid_state_def example_state_def example_time_def example_fill_def
      valid_datetime_def days_in_month_def is_leap_def)

theorem BotState_roundtrip_witness:
  "valid_state example_state
   \<and> (\<exists>s'. BotState_from_dict (BotState_to_dict example_state) example_time = Inr s'
        \<and> bs_positions s' = [(''m1'', mk_position ''m1'' 15 10)]
        \<and> fills s' = [example_fill YES BUY]
        \<and> total_maker_volume s' = 4
        \<and> last_updated s' = example_time)"
  using BotState_roundtrip [OF valid_example_state, of example_time] valid_example_state
  by (auto simp add: example_state_def)

text \<open>
  Claim C5 as stated fails on a state with an open order: the order is written.
\<close>

theorem to_dict_open_orders_counterexample:
  "open_orders example_state = [(''o1'', example_quote)]
   \<and> getitem (BotState_to_dict example_state) ''open_orders''
       = Inr (PDict [(''o1'', PDict [(''token_id'', PStr ''y''), (''price'', PFloat (41 / 100)),
                                    (''size'', PFloat 5), (''side'', PStr ''BUY'')])])
   \<and> getitem (BotState_to_dict example_state) ''open_orders'' \<noteq> Inr (PDict [])"
  by (simp add: BotState_to_dict_def getitem_def example_state_def example_quote_def
      to_order_args_def)

theorem to_dict_open_orders_witness:
  "getitem (BotState_to_dict example_state) ''open_orders''
      = Inr (PDict [(''o1'', to_order_args example_quote)])
   \<and> (\<exists>s'. BotState_from_dict (BotState_to_dict example_state) example_time = Inr s'
        \<and> open_orders s' = [])"
proof -
  have a: "list_all (\<lambda>f. valid_datetime (fill_timestamp f)) (fills example_state)"
    and b: "valid_datetime (last_updated example_state)"
    using valid_example_state by (simp_all add: valid_state_def)
  from BotState_roundtrip_general [OF a b, of example_time]
  obtain s' where s': "BotState_from_dict (BotState_to_dict example_state) example_time = Inr s'"
    by blast
  from to_dict_open_orders [of example_state example_time] s'
  show ?thesis by (auto simp add: example_state_def)
qed

end
